theory Spec2Isabelle
  imports Complex_Main
begin

section \<open>Conventions\<close>

text \<open>
  The server is Python. Its values are embedded as follows.
  \<^item> \<open>str\<close> is \<open>string\<close>; a \<open>char\<close> stands for a code point below 256.
  \<^item> \<open>int\<close> is \<open>int\<close> (unbounded).
  \<^item> \<open>float\<close> is \<open>real\<close>: clock readings (\<open>time.time() * 1000\<close>) and elapsed times are
    taken as exact numbers, which are only compared, subtracted and stored. The
    floating-point arithmetic of \<open>Metrics.get_metrics\<close> (\<open>sum\<close>, division, \<open>round\<close>) is
    not modelled.
  \<^item> \<open>Optional[T]\<close> is \<open>T option\<close>.
  \<^item> A \<open>dict\<close> is an association list with distinct keys in insertion order, since
    \<open>_find_oldest_entry\<close> iterates over \<open>items()\<close> and Python dictionaries keep that order.
  \<^item> Every call of \<open>time.time()\<close> is an explicit argument of the operation that reads it.
  \<^item> Mutation of \<open>self\<close> is state passing: an operation returns the updated object.
\<close>

section \<open>models/request.py, models/response.py\<close>

record CompletionRequest =
  prefix :: string
  suffix :: string
  language :: string
  filename :: "string option"
  model :: string
  max_tokens :: "int option"
  multiline :: bool

record CompletionResponse =
  completion :: string
  error :: "string option"
  requestId :: "string option"

text \<open>Truthiness of a \<open>str\<close> and of an \<open>Optional[str]\<close>, as \<open>if x:\<close> and \<open>x or d\<close> test it.\<close>

definition truthy :: "string \<Rightarrow> bool" where
  "truthy s = (s \<noteq> [])"

definition truthy_opt :: "string option \<Rightarrow> bool" where
  "truthy_opt x = (case x of None \<Rightarrow> False | Some s \<Rightarrow> truthy s)"

definition or_default :: "string \<Rightarrow> string \<Rightarrow> string" where
  "or_default s d = (if truthy s then s else d)"

definition or_default_opt :: "string option \<Rightarrow> string \<Rightarrow> string" where
  "or_default_opt x d = (case x of None \<Rightarrow> d | Some s \<Rightarrow> or_default s d)"

section \<open>Ordered dictionaries\<close>

type_synonym ('k, 'v) dict = "('k \<times> 'v) list"

definition dict_get :: "('k, 'v) dict \<Rightarrow> 'k \<Rightarrow> 'v option" where
  "dict_get d k = map_of d k"

text \<open>\<open>d[k] = v\<close>: an existing key keeps its position, a new key goes last.\<close>

fun dict_set :: "('k, 'v) dict \<Rightarrow> 'k \<Rightarrow> 'v \<Rightarrow> ('k, 'v) dict" where
  "dict_set [] k v = [(k, v)]"
| "dict_set ((k', v') # d) k v =
     (if k' = k then (k, v) # d else (k', v') # dict_set d k v)"

text \<open>\<open>del d[k]\<close> for a key that is present.\<close>

definition dict_del :: "('k, 'v) dict \<Rightarrow> 'k \<Rightarrow> ('k, 'v) dict" where
  "dict_del d k = filter (\<lambda>p. fst p \<noteq> k) d"

definition dict_keys :: "('k, 'v) dict \<Rightarrow> 'k list" where
  "dict_keys d = map fst d"

section \<open>utils/cache.py\<close>

record CacheEntry =
  response :: CompletionResponse
  timestamp :: real

record CompletionCache =
  cache :: "(string, CacheEntry) dict"
  ttl_ms :: int
  max_size :: int

definition new_cache :: "int \<Rightarrow> int \<Rightarrow> CompletionCache" where
  "new_cache ttl cap = \<lparr>cache = [], ttl_ms = ttl, max_size = cap\<rparr>"

definition hash_key :: "CompletionRequest \<Rightarrow> string" where
  "hash_key req =
     (let prefix_tail = (if length (prefix req) > 500
                         then drop (length (prefix req) - 500) (prefix req)
                         else prefix req);
          suffix_head = take 200 (or_default (suffix req) []);
          mdl = or_default (model req) ''haiku''
      in language req @ '':'' @ mdl @ '':'' @ prefix_tail @ '':'' @ suffix_head)"

text \<open>
  \<open>get\<close> returns the response (or \<open>None\<close>) and the cache after the call; \<open>now_ms\<close> is the
  clock reading taken when an entry is found.
\<close>

definition cache_get ::
  "CompletionCache \<Rightarrow> CompletionRequest \<Rightarrow> real \<Rightarrow> CompletionResponse option \<times> CompletionCache"
where
  "cache_get c req now_ms =
     (let key = hash_key req in
      case dict_get (cache c) key of
        None \<Rightarrow> (None, c)
      | Some entry \<Rightarrow>
          if now_ms - timestamp entry > real_of_int (ttl_ms c)
          then (None, c\<lparr>cache := dict_del (cache c) key\<rparr>)
          else (Some (response entry), c))"

text \<open>
  The loop of \<open>_find_oldest_entry\<close>. \<open>oldest_time\<close> starts as \<open>float("inf")\<close>, written
  \<open>None\<close> here: every timestamp is below it.
\<close>

definition below :: "real \<Rightarrow> real option \<Rightarrow> bool" where
  "below t oldest_time = (case oldest_time of None \<Rightarrow> True | Some u \<Rightarrow> t < u)"

fun find_oldest_loop ::
  "(string, CacheEntry) dict \<Rightarrow> string option \<Rightarrow> real option \<Rightarrow> string option"
where
  "find_oldest_loop [] oldest_key oldest_time = oldest_key"
| "find_oldest_loop ((key, entry) # items) oldest_key oldest_time =
     (if below (timestamp entry) oldest_time
      then find_oldest_loop items (Some key) (Some (timestamp entry))
      else find_oldest_loop items oldest_key oldest_time)"

definition find_oldest_entry :: "CompletionCache \<Rightarrow> string option" where
  "find_oldest_entry c = find_oldest_loop (cache c) None None"

text \<open>The eviction step of \<open>set\<close>: \<open>if oldest:\<close> is false for \<open>None\<close> and for the empty key.\<close>

definition evict :: "CompletionCache \<Rightarrow> CompletionCache" where
  "evict c =
     (if int (length (cache c)) \<ge> max_size c
      then (case find_oldest_entry c of
              None \<Rightarrow> c
            | Some oldest \<Rightarrow>
                if truthy oldest then c\<lparr>cache := dict_del (cache c) oldest\<rparr> else c)
      else c)"

definition cache_set ::
  "CompletionCache \<Rightarrow> CompletionRequest \<Rightarrow> CompletionResponse \<Rightarrow> real \<Rightarrow> CompletionCache"
where
  "cache_set c req resp now_ms =
     (if \<not> truthy (completion resp) \<or> truthy_opt (error resp) then c
      else let c1 = evict c; key = hash_key req
           in c1\<lparr>cache := dict_set (cache c1) key \<lparr>response = resp, timestamp = now_ms\<rparr>\<rparr>)"

definition cache_clear :: "CompletionCache \<Rightarrow> CompletionCache" where
  "cache_clear c = c\<lparr>cache := []\<rparr>"

definition cache_size :: "CompletionCache \<Rightarrow> int" where
  "cache_size c = int (length (cache c))"

text \<open>A sequence of calls on one cache, each with the clock reading it takes.\<close>

datatype cache_op =
    Get CompletionRequest real
  | Set CompletionRequest CompletionResponse real
  | Clear

fun cache_step :: "CompletionCache \<Rightarrow> cache_op \<Rightarrow> CompletionCache" where
  "cache_step c (Get req now_ms) = snd (cache_get c req now_ms)"
| "cache_step c (Set req resp now_ms) = cache_set c req resp now_ms"
| "cache_step c Clear = cache_clear c"

definition cache_run :: "CompletionCache \<Rightarrow> cache_op list \<Rightarrow> CompletionCache" where
  "cache_run c ops = foldl cache_step c ops"

section \<open>utils/rate_limiter.py\<close>

record RateLimiter =
  requests :: "real list"
  window_ms :: int
  max_requests :: int

definition new_limiter :: "int \<Rightarrow> int \<Rightarrow> RateLimiter" where
  "new_limiter w n = \<lparr>requests = [], window_ms = w, max_requests = n\<rparr>"

text \<open>\<open>[t for t in self._requests if now - t < self._window_ms]\<close>\<close>

definition in_window :: "RateLimiter \<Rightarrow> real \<Rightarrow> real list" where
  "in_window rl now = filter (\<lambda>t. now - t < real_of_int (window_ms rl)) (requests rl)"

definition is_allowed :: "RateLimiter \<Rightarrow> real \<Rightarrow> bool \<times> RateLimiter" where
  "is_allowed rl now =
     (let reqs = in_window rl now in
      if int (length reqs) \<ge> max_requests rl
      then (False, rl\<lparr>requests := reqs\<rparr>)
      else (True, rl\<lparr>requests := reqs @ [now]\<rparr>))"

definition get_retry_after_seconds :: "RateLimiter \<Rightarrow> real \<Rightarrow> int" where
  "get_retry_after_seconds rl now =
     (case requests rl of
        [] \<Rightarrow> 0
      | oldest # _ \<Rightarrow>
          let wait_ms = real_of_int (window_ms rl) - (now - oldest)
          in max 0 \<lceil>wait_ms / 1000\<rceil>)"

definition get_current_count :: "RateLimiter \<Rightarrow> real \<Rightarrow> int \<times> RateLimiter" where
  "get_current_count rl now =
     (let reqs = in_window rl now in (int (length reqs), rl\<lparr>requests := reqs\<rparr>))"

definition reset_limiter :: "RateLimiter \<Rightarrow> RateLimiter" where
  "reset_limiter rl = rl\<lparr>requests := []\<rparr>"

text \<open>Consecutive \<open>is_allowed\<close> calls at the given clock readings: the answers and the final limiter.\<close>

fun acquire_all :: "RateLimiter \<Rightarrow> real list \<Rightarrow> bool list \<times> RateLimiter" where
  "acquire_all rl [] = ([], rl)"
| "acquire_all rl (now # ts) =
     (let (ok, rl1) = is_allowed rl now; (oks, rl2) = acquire_all rl1 ts
      in (ok # oks, rl2))"

section \<open>utils/metrics.py\<close>

definition MAX_RESPONSE_TIMES :: nat where
  "MAX_RESPONSE_TIMES = 1000"

record Metrics =
  total_requests :: int
  cache_hits :: int
  response_times :: "real list"
  requests_by_model :: "(string, int) dict"
  error_count :: int

definition new_metrics :: Metrics where
  "new_metrics = \<lparr>total_requests = 0, cache_hits = 0, response_times = [],
                   requests_by_model = [], error_count = 0\<rparr>"

definition record_request :: "Metrics \<Rightarrow> string \<Rightarrow> real \<Rightarrow> bool \<Rightarrow> bool \<Rightarrow> Metrics" where
  "record_request m mdl response_time_ms cache_hit err =
     (let times = response_times m @ [response_time_ms] in
      \<lparr>total_requests = total_requests m + 1,
       cache_hits = (if cache_hit then cache_hits m + 1 else cache_hits m),
       response_times = (if length times > MAX_RESPONSE_TIMES then tl times else times),
       requests_by_model =
         dict_set (requests_by_model m) mdl
           ((case dict_get (requests_by_model m) mdl of None \<Rightarrow> 0 | Some n \<Rightarrow> n) + 1),
       error_count = (if err then error_count m + 1 else error_count m)\<rparr>)"

definition reset_metrics :: "Metrics \<Rightarrow> Metrics" where
  "reset_metrics m = new_metrics"

text \<open>One \<open>record_request\<close> call: model, response time, cache hit, error.\<close>

type_synonym sample = "string \<times> real \<times> bool \<times> bool"

definition record_sample :: "Metrics \<Rightarrow> sample \<Rightarrow> Metrics" where
  "record_sample m s = (case s of (mdl, t, hit, err) \<Rightarrow> record_request m mdl t hit err)"

definition record_all :: "sample list \<Rightarrow> Metrics" where
  "record_all ss = foldl record_sample new_metrics ss"

definition sample_time :: "sample \<Rightarrow> real" where
  "sample_time s = fst (snd s)"

definition sample_hit :: "sample \<Rightarrow> bool" where
  "sample_hit s = fst (snd (snd s))"

section \<open>Strings and regular expressions\<close>

definition code :: "char \<Rightarrow> nat" where
  "code c = of_char c"

text \<open>\<open>\w\<close> on a \<open>str\<close> pattern: alphanumeric code points and the underscore.\<close>

definition is_word_char :: "char \<Rightarrow> bool" where
  "is_word_char c =
     (let n = code c in
      (48 \<le> n \<and> n \<le> 57) \<or> (65 \<le> n \<and> n \<le> 90) \<or> n = 95 \<or> (97 \<le> n \<and> n \<le> 122)
      \<or> n \<in> {170, 178, 179, 181, 185, 186, 188, 189, 190}
      \<or> (192 \<le> n \<and> n \<le> 214) \<or> (216 \<le> n \<and> n \<le> 246) \<or> (248 \<le> n \<and> n \<le> 255))"

text \<open>The whitespace that \<open>str.strip()\<close> removes.\<close>

definition is_space :: "char \<Rightarrow> bool" where
  "is_space c = (code c \<in> {9, 10, 11, 12, 13, 28, 29, 30, 31, 32, 133, 160})"

definition py_strip :: "string \<Rightarrow> string" where
  "py_strip s = rev (dropWhile is_space (rev (dropWhile is_space s)))"

definition starts_with :: "string \<Rightarrow> string \<Rightarrow> bool" where
  "starts_with p s = (take (length p) s = p)"

definition newline :: char where
  "newline = CHR 0x0A"

definition fence :: string where
  "fence = ''```''"

text \<open>\<open>re.sub(r"^```[\w]*\n?", "", text)\<close>: without \<open>re.MULTILINE\<close> the pattern can match at
  the start of the text only; \<open>[\w]*\<close> is greedy and the newline is optional.\<close>

definition sub_open_fence :: "string \<Rightarrow> string" where
  "sub_open_fence text =
     (if starts_with fence text
      then (case dropWhile is_word_char (drop 3 text) of
              [] \<Rightarrow> []
            | c # r \<Rightarrow> if c = newline then r else c # r)
      else text)"

text \<open>\<open>re.sub(r"\n?```$", "", text)\<close>: \<open>$\<close> matches at the end of the text and also just before
  a newline that ends the text, so the fence is removed in front of one final newline as
  well; the leftmost match takes the newline before the fence when there is one. The
  function works on the reversed text.\<close>

definition drop_newline :: "string \<Rightarrow> string" where
  "drop_newline r = (case r of [] \<Rightarrow> [] | c # r' \<Rightarrow> if c = newline then r' else c # r')"

definition sub_close_fence :: "string \<Rightarrow> string" where
  "sub_close_fence text =
     (let r = rev text in
      if starts_with fence r then rev (drop_newline (drop 3 r))
      else if starts_with (newline # fence) r then rev (newline # drop_newline (drop 4 r))
      else text)"

text \<open>\<open>re.IGNORECASE\<close> against patterns whose letters are ASCII.\<close>

definition lower :: "char \<Rightarrow> char" where
  "lower c = (if 65 \<le> code c \<and> code c \<le> 90 then char_of (code c + 32) else c)"

text \<open>The fragment of regular expressions that \<open>CONVERSATIONAL_PATTERNS\<close> uses: literals,
  alternatives and sequences. \<open>rx_match r s\<close> lists what is left of \<open>s\<close> after each way of
  matching \<open>r\<close> at its start.\<close>

datatype rx = Lit string | Alt "rx list" | Seq rx rx

fun rx_match :: "rx \<Rightarrow> string \<Rightarrow> string list" where
  "rx_match (Lit p) s =
     (if starts_with (map lower p) (map lower s) then [drop (length p) s] else [])"
| "rx_match (Alt rs) s = concat (map (\<lambda>r. rx_match r s) rs)"
| "rx_match (Seq a b) s = concat (map (rx_match b) (rx_match a s))"

definition matches_at_start :: "rx \<Rightarrow> string \<Rightarrow> bool" where
  "matches_at_start r s = (rx_match r s \<noteq> [])"

fun matches_somewhere :: "rx \<Rightarrow> string \<Rightarrow> bool" where
  "matches_somewhere r [] = matches_at_start r []"
| "matches_somewhere r (c # s) = (matches_at_start r (c # s) \<or> matches_somewhere r s)"

text \<open>A compiled pattern: its source text (\<open>pattern.pattern\<close>), whether it starts with \<open>^\<close>,
  and the expression after the anchor.\<close>

record pattern =
  source :: string
  anchored :: bool
  body :: rx

definition search :: "pattern \<Rightarrow> string \<Rightarrow> bool" where
  "search p s = (if anchored p then matches_at_start (body p) s
                 else matches_somewhere (body p) s)"

text \<open>\<open>str(n)\<close> for an \<open>int\<close>.\<close>

fun str_nat :: "nat \<Rightarrow> string" where
  "str_nat n = (if n < 10 then [char_of (48 + n)]
                else str_nat (n div 10) @ [char_of (48 + n mod 10)])"

declare str_nat.simps [simp del]

definition str_int :: "int \<Rightarrow> string" where
  "str_int i = (if i < 0 then CHR ''-'' # str_nat (nat (- i)) else str_nat (nat i))"

section \<open>services/completion.py: the output sanitizer\<close>

definition CONVERSATIONAL_PATTERNS :: "pattern list" where
  "CONVERSATIONAL_PATTERNS =
     [\<lparr>source = ''^I (need|cannot|can't|don't|would|could)'', anchored = True,
       body = Seq (Lit ''I '')
                (Alt [Lit ''need'', Lit ''cannot'', Lit ''can't'', Lit ''don't'',
                      Lit ''would'', Lit ''could''])\<rparr>,
      \<lparr>source = ''^(Could|Would|Can) you'', anchored = True,
       body = Seq (Alt [Lit ''Could'', Lit ''Would'', Lit ''Can'']) (Lit '' you'')\<rparr>,
      \<lparr>source = ''more context'', anchored = False, body = Lit ''more context''\<rparr>,
      \<lparr>source = ''cannot provide'', anchored = False, body = Lit ''cannot provide''\<rparr>,
      \<lparr>source = ''please provide'', anchored = False, body = Lit ''please provide''\<rparr>,
      \<lparr>source = ''let me'', anchored = False, body = Lit ''let me''\<rparr>,
      \<lparr>source = ''however'', anchored = False, body = Lit ''however''\<rparr>,
      \<lparr>source = ''without (additional|more)'', anchored = False,
       body = Seq (Lit ''without '') (Alt [Lit ''additional'', Lit ''more''])\<rparr>]"

definition strip_fences :: "string \<Rightarrow> string" where
  "strip_fences text = py_strip (sub_close_fence (sub_open_fence text))"

definition clean_completion :: "string \<Rightarrow> int \<Rightarrow> string \<times> string option" where
  "clean_completion text max_length =
     (let cleaned = strip_fences text in
      case find (\<lambda>p. search p cleaned) CONVERSATIONAL_PATTERNS of
        Some p \<Rightarrow> ([], Some (''Filtered conversational response: '' @ source p))
      | None \<Rightarrow>
          if int (length cleaned) > max_length
          then ([], Some (''Filtered response (too long): '' @ str_int (int (length cleaned))
                          @ '' > '' @ str_int max_length))
          else (cleaned, None))"

section \<open>services/modification.py: the output cleaner\<close>

definition clean_modification :: "string \<Rightarrow> string" where
  "clean_modification text = strip_fences text"

section \<open>services/claude_client.py\<close>

text \<open>
  What a call can raise, by the most specific class that the handlers of this server
  distinguish, with the text \<open>str(e)\<close> where a handler reads it. \<open>ProcessError\<close> carries the
  text of its \<open>exit_code\<close> attribute, or \<open>None\<close> when the exception has no such attribute.
  \<open>OtherException\<close> is any other subclass of \<open>Exception\<close>; \<open>BaseExceptionOnly\<close> is a
  \<open>BaseException\<close> outside \<open>Exception\<close> (a cancellation, an interrupt), which no handler of
  the server names.
\<close>

datatype py_exception =
    TimeoutError
  | CLINotFoundError
  | CLIConnectionError string
  | ProcessError "string option" string
  | CLIJSONDecodeError string
  | ClaudeSDKError string
  | OtherException string
  | BaseExceptionOnly string

definition MODEL_TIMEOUTS :: "(string, real) dict" where
  "MODEL_TIMEOUTS = [(''haiku'', 5), (''sonnet'', 10), (''opus'', 30)]"

definition DEFAULT_TIMEOUT :: real where
  "DEFAULT_TIMEOUT = 5"

text \<open>
  The process environment and the built-in \<open>int\<close> are outside the repository:
  \<open>env_timeout\<close> is \<open>os.environ.get("COMPLETION_TIMEOUT_MS")\<close>, and \<open>int_of_str s\<close> is
  \<open>int(s)\<close>, either the integer or the message of the \<open>ValueError\<close> it raises.
  The result of \<open>get_timeout\<close> is in seconds.
\<close>

definition model_timeout :: "string \<Rightarrow> real" where
  "model_timeout mdl = (case dict_get MODEL_TIMEOUTS mdl of
                          Some t \<Rightarrow> t
                        | None \<Rightarrow> DEFAULT_TIMEOUT)"

definition get_timeout ::
  "(string \<Rightarrow> string + int) \<Rightarrow> string option \<Rightarrow> string \<Rightarrow> py_exception + real"
where
  "get_timeout int_of_str env_timeout mdl =
     (case env_timeout of
        None \<Rightarrow> Inr (model_timeout mdl)
      | Some v \<Rightarrow>
          if truthy v
          then (case int_of_str v of
                  Inl msg \<Rightarrow> Inl (OtherException msg)
                | Inr n \<Rightarrow> Inr (real_of_int n / 1000))
          else Inr (model_timeout mdl))"

record ClaudeAgentOptions =
  system_prompt :: string
  options_model :: string
  max_turns :: int
  allowed_tools :: "string list"

datatype content_block = TextBlock string | OtherBlock

datatype sdk_message = AssistantMessage "content_block list" | OtherMessage

text \<open>
  The SDK's \<open>query\<close>, iterated to its end under \<open>asyncio.timeout(timeout)\<close>: given the prompt,
  the options and the timeout in seconds, it yields all its messages or raises
  (\<open>TimeoutError\<close> when the deadline passes first).
\<close>

type_synonym sdk_query =
  "string \<Rightarrow> ClaudeAgentOptions \<Rightarrow> real \<Rightarrow> py_exception + sdk_message list"

fun block_text :: "content_block \<Rightarrow> string" where
  "block_text (TextBlock t) = t"
| "block_text OtherBlock = []"

fun message_text :: "sdk_message \<Rightarrow> string" where
  "message_text (AssistantMessage content) = concat (map block_text content)"
| "message_text OtherMessage = []"

text \<open>
  \<open>get_claude_completion\<close> returns what the coroutine returns or raises, together with the
  timeouts of the \<open>query\<close> calls it made, in order: one entry per backend attempt.
  The \<open>TimeoutError\<close> raised by the timeout block is replaced by a fresh \<open>TimeoutError\<close>;
  every other exception passes through unchanged.
\<close>

definition get_claude_completion ::
  "sdk_query \<Rightarrow> (string \<Rightarrow> string + int) \<Rightarrow> string option
     \<Rightarrow> string \<Rightarrow> string \<Rightarrow> string \<Rightarrow> int option
     \<Rightarrow> (py_exception + string) \<times> real list"
where
  "get_claude_completion query int_of_str env_timeout prompt sys_prompt mdl timeout_override =
     (let options = \<lparr>system_prompt = sys_prompt, options_model = mdl,
                      max_turns = 1, allowed_tools = []\<rparr>;
          resolved =
            (case timeout_override of
               None \<Rightarrow> get_timeout int_of_str env_timeout mdl
             | Some ms \<Rightarrow>
                 if ms \<noteq> 0 then Inr (real_of_int ms / 1000)
                 else get_timeout int_of_str env_timeout mdl)
      in case resolved of
           Inl e \<Rightarrow> (Inl e, [])
         | Inr timeout \<Rightarrow>
             (case query prompt options timeout of
                Inl e \<Rightarrow> (Inl e, [timeout])
              | Inr messages \<Rightarrow> (Inr (concat (map message_text messages)), [timeout])))"

section \<open>The request pipelines\<close>

text \<open>
  The collaborators of a pipeline: the SDK, the environment, the built-in \<open>int\<close> and the
  prompt templates of \<open>utils/prompts.py\<close> (files that are not part of the sources).
\<close>

record collaborators =
  query :: sdk_query
  int_of_str :: "string \<Rightarrow> string + int"
  env_timeout :: "string option"
  get_system_prompt :: "bool \<Rightarrow> string"
  get_user_prompt :: "string \<Rightarrow> string \<Rightarrow> string \<Rightarrow> string \<Rightarrow> string"
  get_modify_system_prompt :: string
  get_modify_user_prompt :: "string \<Rightarrow> string \<Rightarrow> string \<Rightarrow> string \<Rightarrow> string \<Rightarrow> string"

text \<open>The process-wide singletons \<open>completion_cache\<close> and \<open>metrics\<close>. A pipeline is run
  for one request at a time: the state it is given is the state it sees until it returns.\<close>

record server_state =
  completion_cache :: CompletionCache
  metrics :: Metrics

text \<open>
  The clock readings of one request, in the order the pipeline takes them: at its start,
  inside \<open>completion_cache.get\<close>, when the elapsed time is computed, and inside
  \<open>completion_cache.set\<close>.
\<close>

record clock =
  t_start :: real
  t_lookup :: real
  t_elapsed :: real
  t_store :: real

subsection \<open>services/completion.py\<close>

text \<open>
  The result is \<open>Inr\<close> of the response and the state after the request, or \<open>Inl\<close> of an
  exception that leaves \<open>get_completion\<close>. Logging is not modelled.
\<close>

definition get_completion ::
  "collaborators \<Rightarrow> server_state \<Rightarrow> clock \<Rightarrow> CompletionRequest \<Rightarrow> string option
     \<Rightarrow> py_exception + (CompletionResponse \<times> server_state)"
where
  "get_completion co st clk req request_id =
     (let suffix' = or_default (suffix req) [];
          filename' = or_default_opt (filename req) ''unknown'';
          mdl = or_default (model req) ''haiku'';
          max_length = (if multiline req then 1000 else 200);
          start_time = t_start clk;
          elapsed = t_elapsed clk - start_time;
          (cached, cache1) = cache_get (completion_cache st) req (t_lookup clk);
          st1 = st\<lparr>completion_cache := cache1\<rparr>;
          failed = (\<lambda>error_msg.
            Inr (\<lparr>completion = [], error = Some error_msg, requestId = request_id\<rparr>,
                 st1\<lparr>metrics := record_request (metrics st1) mdl elapsed False True\<rparr>))
      in case cached of
           Some hit \<Rightarrow>
             Inr (\<lparr>completion = completion hit, error = error hit, requestId = request_id\<rparr>,
                  st1\<lparr>metrics := record_request (metrics st1) mdl elapsed True False\<rparr>)
         | None \<Rightarrow>
             (let sys_prompt = get_system_prompt co (multiline req);
                  prompt = get_user_prompt co (language req) filename' (prefix req) suffix'
              in case fst (get_claude_completion (query co) (int_of_str co) (env_timeout co)
                             prompt sys_prompt mdl None) of
                   Inr completion_text \<Rightarrow>
                     (let (cleaned_completion, filter_reason) =
                            clean_completion completion_text max_length
                      in if truthy_opt filter_reason
                         then Inr (\<lparr>completion = [], error = None, requestId = request_id\<rparr>,
                                   st1\<lparr>metrics :=
                                         record_request (metrics st1) mdl elapsed False False\<rparr>)
                         else
                           (let resp = \<lparr>completion = cleaned_completion, error = None,
                                        requestId = request_id\<rparr>;
                                cache2 = cache_set cache1 req resp (t_store clk)
                            in Inr (resp,
                                    st1\<lparr>completion_cache := cache2,
                                        metrics :=
                                          record_request (metrics st1) mdl elapsed False False\<rparr>)))
                 | Inl TimeoutError \<Rightarrow> failed ''Request timed out''
                 | Inl CLINotFoundError \<Rightarrow>
                     failed (''Claude Code CLI not found. Please install it with: ''
                             @ ''npm install -g @anthropic-ai/claude-code'')
                 | Inl (CLIConnectionError e) \<Rightarrow>
                     failed (''Failed to connect to Claude Code CLI: '' @ e)
                 | Inl (ProcessError exit_code e) \<Rightarrow>
                     failed (''Claude Code CLI process failed (exit code: ''
                             @ (case exit_code of None \<Rightarrow> ''unknown'' | Some c \<Rightarrow> c) @ '')'')
                 | Inl (CLIJSONDecodeError e) \<Rightarrow>
                     failed (''Failed to parse Claude Code response: '' @ e)
                 | Inl (ClaudeSDKError e) \<Rightarrow> failed (''Claude SDK error: '' @ e)
                 | Inl (OtherException e) \<Rightarrow> failed (if truthy e then e else ''Unknown error'')
                 | Inl (BaseExceptionOnly e) \<Rightarrow> Inl (BaseExceptionOnly e)))"

subsection \<open>services/modification.py\<close>

record ModifyRequest =
  mod_code :: string
  mod_instruction :: string
  mod_language :: string
  mod_filename :: "string option"
  mod_model :: string
  mod_prefix :: string
  mod_suffix :: string

record ModifyResponse =
  modified_code :: string
  mod_error :: "string option"
  mod_requestId :: "string option"

definition get_modification ::
  "collaborators \<Rightarrow> Metrics \<Rightarrow> clock \<Rightarrow> ModifyRequest \<Rightarrow> string option
     \<Rightarrow> py_exception + (ModifyResponse \<times> Metrics)"
where
  "get_modification co m clk req request_id =
     (let mdl = or_default (mod_model req) ''opus'';
          prefix' = or_default (mod_prefix req) [];
          suffix' = or_default (mod_suffix req) [];
          start_time = t_start clk;
          elapsed = t_elapsed clk - start_time;
          sys_prompt = get_modify_system_prompt co;
          prompt = get_modify_user_prompt co (mod_language req) (mod_code req)
                     (mod_instruction req) prefix' suffix';
          failed = (\<lambda>error_msg.
            Inr (\<lparr>modified_code = [], mod_error = Some error_msg, mod_requestId = request_id\<rparr>,
                 record_request m mdl elapsed False True))
      in case fst (get_claude_completion (query co) (int_of_str co) (env_timeout co)
                     prompt sys_prompt mdl None) of
           Inr modified_text \<Rightarrow>
             Inr (\<lparr>modified_code = clean_modification modified_text, mod_error = None,
                   mod_requestId = request_id\<rparr>,
                  record_request m mdl elapsed False False)
         | Inl TimeoutError \<Rightarrow> failed ''Request timed out''
         | Inl CLINotFoundError \<Rightarrow>
             failed (''Claude Code CLI not found. Please install it with: ''
                     @ ''npm install -g @anthropic-ai/claude-code'')
         | Inl (CLIConnectionError e) \<Rightarrow> failed (''Failed to connect to Claude Code CLI: '' @ e)
         | Inl (ProcessError exit_code e) \<Rightarrow>
             failed (''Claude Code CLI process failed (exit code: ''
                     @ (case exit_code of None \<Rightarrow> ''unknown'' | Some c \<Rightarrow> c) @ '')'')
         | Inl (CLIJSONDecodeError e) \<Rightarrow> failed (''Failed to parse Claude Code response: '' @ e)
         | Inl (ClaudeSDKError e) \<Rightarrow> failed (''Claude SDK error: '' @ e)
         | Inl (OtherException e) \<Rightarrow> failed (if truthy e then e else ''Unknown error'')
         | Inl (BaseExceptionOnly e) \<Rightarrow> Inl (BaseExceptionOnly e))"

section \<open>Well-formed caches and test data\<close>

text \<open>A cache is well formed when its keys are distinct and none is empty, as holds for
  every cache built by the operations (\<open>hash_key\<close> always contains colons).\<close>

definition well_formed :: "CompletionCache \<Rightarrow> bool" where
  "well_formed c = (distinct (dict_keys (cache c)) \<and> [] \<notin> set (dict_keys (cache c)))"

text \<open>The request and the response of \<open>test_cache_and_retrieve\<close> in \<open>tests/test_cache.py\<close>.\<close>

definition request_x :: CompletionRequest where
  "request_x = \<lparr>prefix = ''const x = '', suffix = [], language = ''typescript'',
                 filename = None, model = ''haiku'', max_tokens = None, multiline = False\<rparr>"

definition response_42 :: CompletionResponse where
  "response_42 = \<lparr>completion = ''42'', error = None, requestId = None\<rparr>"

text \<open>The requests and responses of \<open>test_evict_oldest_at_capacity\<close>, and a cache of capacity 2
  filled with them.\<close>

definition request_1 :: CompletionRequest where
  "request_1 = \<lparr>prefix = ''1'', suffix = [], language = ''ts'',
                 filename = None, model = ''haiku'', max_tokens = None, multiline = False\<rparr>"

definition request_2 :: CompletionRequest where
  "request_2 = \<lparr>prefix = ''2'', suffix = [], language = ''ts'',
                 filename = None, model = ''haiku'', max_tokens = None, multiline = False\<rparr>"

definition response_one :: CompletionResponse where
  "response_one = \<lparr>completion = ''one'', error = None, requestId = None\<rparr>"

definition response_two :: CompletionResponse where
  "response_two = \<lparr>completion = ''two'', error = None, requestId = None\<rparr>"

definition full_cache :: CompletionCache where
  "full_cache = cache_run (new_cache 10000 2)
                  [Set request_1 response_one 0, Set request_2 response_two 1]"

text \<open>The fenced completion of the sanitizer examples.\<close>

definition fenced_text :: string where
  "fenced_text = ''```python\<newline>print(1)\<newline>```''"

text \<open>A backend that answers \<open>42\<close>, and an \<open>int\<close> that reads one decimal text.\<close>

definition silent_query :: sdk_query where
  "silent_query prompt options timeout = Inr [AssistantMessage [TextBlock ''42'']]"

definition decimal_8000 :: "string \<Rightarrow> string + int" where
  "decimal_8000 v = (if v = ''8000'' then Inr 8000 else Inl ''invalid literal for int()'')"

text \<open>Collaborators whose backend raises a given exception or answers a given text, the state
  of a server that has just started, the clock readings of one request, and a
  modification request.\<close>

definition raising_backend :: "py_exception \<Rightarrow> collaborators" where
  "raising_backend e =
     \<lparr>query = (\<lambda>prompt options timeout. Inl e), int_of_str = decimal_8000, env_timeout = None,
      get_system_prompt = (\<lambda>multiline. ''system''),
      get_user_prompt = (\<lambda>language filename prefix suffix. prefix),
      get_modify_system_prompt = ''system'',
      get_modify_user_prompt = (\<lambda>language code instruction prefix suffix. code)\<rparr>"

definition answering_backend :: "string \<Rightarrow> collaborators" where
  "answering_backend text =
     \<lparr>query = (\<lambda>prompt options timeout. Inr [AssistantMessage [TextBlock text]]),
      int_of_str = decimal_8000, env_timeout = None,
      get_system_prompt = (\<lambda>multiline. ''system''),
      get_user_prompt = (\<lambda>language filename prefix suffix. prefix),
      get_modify_system_prompt = ''system'',
      get_modify_user_prompt = (\<lambda>language code instruction prefix suffix. code)\<rparr>"

definition fresh_state :: server_state where
  "fresh_state = \<lparr>completion_cache = new_cache 30000 100, metrics = new_metrics\<rparr>"

definition clock_0156 :: clock where
  "clock_0156 = \<lparr>t_start = 0, t_lookup = 1, t_elapsed = 5, t_store = 6\<rparr>"

definition modify_request :: ModifyRequest where
  "modify_request = \<lparr>mod_code = ''x = 1'', mod_instruction = ''rename x'',
                      mod_language = ''python'', mod_filename = None, mod_model = ''opus'',
                      mod_prefix = [], mod_suffix = []\<rparr>"

section \<open>Ordered dictionaries: lemmas\<close>

lemma dict_get_set: "dict_get (dict_set d k v) k' = (if k' = k then Some v else dict_get d k')"
  by (induction d) (auto simp: dict_get_def)

lemma dict_get_del: "dict_get (dict_del d k) k' = (if k' = k then None else dict_get d k')"
  by (induction d) (auto simp: dict_get_def dict_del_def)

lemma dict_keys_set:
  "dict_keys (dict_set d k v) =
     (if k \<in> set (dict_keys d) then dict_keys d else dict_keys d @ [k])"
  unfolding dict_keys_def by (induction d) (auto simp: rev_image_eqI)

lemma distinct_dict_set: "distinct (dict_keys d) \<Longrightarrow> distinct (dict_keys (dict_set d k v))"
  by (simp add: dict_keys_set)

lemma dict_keys_del: "dict_keys (dict_del d k) = filter (\<lambda>x. x \<noteq> k) (dict_keys d)"
  by (induction d) (auto simp: dict_keys_def dict_del_def)

lemma distinct_dict_del: "distinct (dict_keys d) \<Longrightarrow> distinct (dict_keys (dict_del d k))"
  by (simp add: dict_keys_del)

lemma length_dict_set:
  "length (dict_set d k v) = (if k \<in> set (dict_keys d) then length d else Suc (length d))"
proof -
  have "length (dict_set d k v) = length (dict_keys (dict_set d k v))"
    by (simp add: dict_keys_def)
  also have "\<dots> = (if k \<in> set (dict_keys d) then length d else Suc (length d))"
    by (simp add: dict_keys_set) (simp add: dict_keys_def)
  finally show ?thesis .
qed

lemma length_dict_del:
  "distinct (dict_keys d) \<Longrightarrow> k \<in> set (dict_keys d) \<Longrightarrow> Suc (length (dict_del d k)) = length d"
proof (induction d)
  case Nil
  then show ?case by (simp add: dict_keys_def)
next
  case (Cons p d)
  show ?case
  proof (cases "fst p = k")
    case True
    then have "k \<notin> fst ` set d" using Cons.prems(1) by (auto simp: dict_keys_def)
    then have "filter (\<lambda>p. fst p \<noteq> k) d = d" by (auto intro: filter_True)
    then show ?thesis using True by (simp add: dict_del_def)
  next
    case False
    then show ?thesis using Cons by (auto simp: dict_keys_def dict_del_def)
  qed
qed

lemma length_dict_del_le: "length (dict_del d k) \<le> length d"
  by (simp add: dict_del_def)

lemma set_dict_del:
  "distinct (dict_keys d) \<Longrightarrow> (k, e) \<in> set d \<Longrightarrow> set (dict_del d k) = set d - {(k, e)}"
  by (auto simp: dict_del_def dict_keys_def dest: eq_key_imp_eq_value)

lemma dict_get_mem: "distinct (dict_keys d) \<Longrightarrow> (dict_get d k = Some e) = ((k, e) \<in> set d)"
  by (simp add: dict_get_def dict_keys_def)

section \<open>The cache: lookups\<close>

lemma cache_get_hit:
  "dict_get (cache c) (hash_key req) = Some entry \<Longrightarrow>
   \<not> now_ms - timestamp entry > real_of_int (ttl_ms c) \<Longrightarrow>
   cache_get c req now_ms = (Some (response entry), c)"
  by (simp add: cache_get_def)

lemma cache_get_expired:
  "dict_get (cache c) (hash_key req) = Some entry \<Longrightarrow>
   now_ms - timestamp entry > real_of_int (ttl_ms c) \<Longrightarrow>
   cache_get c req now_ms = (None, c\<lparr>cache := dict_del (cache c) (hash_key req)\<rparr>)"
  by (simp add: cache_get_def)

lemma cache_get_absent:
  "dict_get (cache c) (hash_key req) = None \<Longrightarrow> cache_get c req now_ms = (None, c)"
  by (simp add: cache_get_def)

lemma cache_get_other:
  "k \<noteq> hash_key req \<Longrightarrow>
   dict_get (cache (snd (cache_get c req now_ms))) k = dict_get (cache c) k"
  by (simp add: cache_get_def Let_def dict_get_del split: option.splits)

text \<open>
  Claim C4. When the key of a request is in the cache, \<open>get\<close> reports a miss and deletes
  the entry exactly when \<open>now - entry.timestamp > ttl_ms\<close>; from then on every \<open>get\<close> of the
  request misses, at any time and with no \<open>set\<close> in between. Otherwise \<open>get\<close> returns the
  stored response and leaves the whole cache, the entry's timestamp included, as it was.
  In both cases no other key is touched: an expired entry goes only when it is itself
  looked up.
\<close>

theorem C4_get_expires_lazily:
  assumes "dict_get (cache c) (hash_key req) = Some entry"
  shows "(if now_ms - timestamp entry > real_of_int (ttl_ms c)
          then cache_get c req now_ms = (None, c\<lparr>cache := dict_del (cache c) (hash_key req)\<rparr>)
               \<and> dict_get (cache (snd (cache_get c req now_ms))) (hash_key req) = None
               \<and> (\<forall>later. fst (cache_get (snd (cache_get c req now_ms)) req later) = None)
          else cache_get c req now_ms = (Some (response entry), c))
         \<and> (\<forall>k. k \<noteq> hash_key req \<longrightarrow>
                dict_get (cache (snd (cache_get c req now_ms))) k = dict_get (cache c) k)"
proof -
  have other: "\<forall>k. k \<noteq> hash_key req \<longrightarrow>
                dict_get (cache (snd (cache_get c req now_ms))) k = dict_get (cache c) k"
    by (simp add: cache_get_other)
  show ?thesis
  proof (cases "now_ms - timestamp entry > real_of_int (ttl_ms c)")
    case True
    have g: "cache_get c req now_ms = (None, c\<lparr>cache := dict_del (cache c) (hash_key req)\<rparr>)"
      using assms True by (rule cache_get_expired)
    have gone: "dict_get (cache (snd (cache_get c req now_ms))) (hash_key req) = None"
      by (simp add: g dict_get_del)
    have "\<forall>later. fst (cache_get (snd (cache_get c req now_ms)) req later) = None"
      using gone by (simp add: cache_get_absent)
    with g gone other True show ?thesis by simp
  next
    case False
    have "cache_get c req now_ms = (Some (response entry), c)"
      using assms False by (rule cache_get_hit)
    with other False show ?thesis by simp
  qed
qed

lemma cache_set_stores:
  assumes "completion P \<noteq> []" "error P = None"
  shows "dict_get (cache (cache_set c R P t)) (hash_key R) = Some \<lparr>response = P, timestamp = t\<rparr>"
    and "ttl_ms (cache_set c R P t) = ttl_ms c"
    and "max_size (cache_set c R P t) = max_size c"
  using assms
  by (simp_all add: cache_set_def truthy_def truthy_opt_def Let_def dict_get_set evict_def
      split: option.splits)

text \<open>
  Claim C3. For a response \<open>P\<close> with non-empty completion and no error: a \<open>get\<close> of request
  \<open>R\<close> right after \<open>set(R, P)\<close>, at most \<open>ttl_ms\<close> after the insertion, returns \<open>P\<close>; and in
  any later cache that still holds the inserted entry under the fingerprint of \<open>R\<close>, a
  \<open>get\<close> at most \<open>ttl_ms\<close> after the insertion returns \<open>P\<close> and changes nothing.
\<close>

theorem C3_set_then_get:
  assumes "completion P \<noteq> []" and "error P = None"
  shows "(t_get - t_set \<le> real_of_int (ttl_ms c) \<longrightarrow>
            cache_get (cache_set c R P t_set) R t_get = (Some P, cache_set c R P t_set))
         \<and> (\<forall>c'. dict_get (cache c') (hash_key R) = Some \<lparr>response = P, timestamp = t_set\<rparr>
                  \<and> t_get - t_set \<le> real_of_int (ttl_ms c')
                \<longrightarrow> cache_get c' R t_get = (Some P, c'))"
proof -
  have later: "cache_get c' R t_get = (Some P, c')"
    if "dict_get (cache c') (hash_key R) = Some \<lparr>response = P, timestamp = t_set\<rparr>"
      and "t_get - t_set \<le> real_of_int (ttl_ms c')" for c'
    using cache_get_hit [OF that(1), of t_get] that(2) by simp
  have "cache_get (cache_set c R P t_set) R t_get = (Some P, cache_set c R P t_set)"
    if "t_get - t_set \<le> real_of_int (ttl_ms c)"
    using later [of "cache_set c R P t_set"] that cache_set_stores [OF assms, of c R t_set]
    by simp
  with later show ?thesis by blast
qed

theorem C3_set_then_get_witness:
  "completion response_42 \<noteq> [] \<and> error response_42 = None
   \<and> (10::real) - 0 \<le> real_of_int (ttl_ms (new_cache 1000 10))
   \<and> cache_get (cache_set (new_cache 1000 10) request_x response_42 0) request_x 10
       = (Some response_42, cache_set (new_cache 1000 10) request_x response_42 0)"
  using C3_set_then_get [of response_42 10 0 "new_cache 1000 10" request_x]
  by (simp add: response_42_def new_cache_def)

theorem C4_get_expires_lazily_witness:
  "dict_get (cache (cache_set (new_cache 50 10) request_x response_42 0)) (hash_key request_x)
     = Some \<lparr>response = response_42, timestamp = 0\<rparr>
   \<and> fst (cache_get (cache_set (new_cache 50 10) request_x response_42 0) request_x 50)
       = Some response_42
   \<and> cache_get (cache_set (new_cache 50 10) request_x response_42 0) request_x 60
       = (None, new_cache 50 10)"
proof -
  let ?c = "cache_set (new_cache 50 10) request_x response_42 0"
  have e: "dict_get (cache ?c) (hash_key request_x) = Some \<lparr>response = response_42, timestamp = 0\<rparr>"
    by (simp add: cache_set_stores response_42_def)
  have c: "?c = \<lparr>cache = [(hash_key request_x, \<lparr>response = response_42, timestamp = 0\<rparr>)],
                 ttl_ms = 50, max_size = 10\<rparr>"
    by (simp add: cache_set_def new_cache_def evict_def response_42_def truthy_def
        truthy_opt_def)
  have ttl: "ttl_ms ?c = 50"
    unfolding c by simp
  have del: "?c\<lparr>cache := dict_del (cache ?c) (hash_key request_x)\<rparr> = new_cache 50 10"
    unfolding c by (simp add: dict_del_def new_cache_def)
  have "fst (cache_get ?c request_x 50) = Some response_42"
    using C4_get_expires_lazily [OF e, of 50] by (simp add: ttl)
  moreover have "cache_get ?c request_x 60 = (None, new_cache 50 10)"
    using C4_get_expires_lazily [OF e, of 60] by (simp add: ttl del)
  ultimately show ?thesis
    using e by simp
qed

section \<open>The cache: eviction and capacity\<close>

lemma hash_key_nonempty: "hash_key req \<noteq> []"
  by (simp add: hash_key_def Let_def)

lemma find_oldest_loop_acc:
  "\<exists>k. find_oldest_loop items (Some k0) (Some t0) = Some k
       \<and> ((k = k0 \<and> (\<forall>p \<in> set items. t0 \<le> timestamp (snd p)))
          \<or> (\<exists>e. (k, e) \<in> set items \<and> timestamp e < t0
                 \<and> (\<forall>p \<in> set items. timestamp e \<le> timestamp (snd p))))"
proof (induction items arbitrary: k0 t0)
  case Nil
  then show ?case by simp
next
  case (Cons p items)
  obtain key entry where p: "p = (key, entry)" by (cases p)
  show ?case
  proof (cases "timestamp entry < t0")
    case True
    obtain k where k: "find_oldest_loop items (Some key) (Some (timestamp entry)) = Some k"
      and alt: "(k = key \<and> (\<forall>q \<in> set items. timestamp entry \<le> timestamp (snd q)))
          \<or> (\<exists>e. (k, e) \<in> set items \<and> timestamp e < timestamp entry
                 \<and> (\<forall>q \<in> set items. timestamp e \<le> timestamp (snd q)))"
      using Cons.IH [of key "timestamp entry"] by blast
    have run: "find_oldest_loop (p # items) (Some k0) (Some t0) = Some k"
      using True k by (simp add: p below_def)
    from alt have "\<exists>e. (k, e) \<in> set (p # items) \<and> timestamp e < t0
                 \<and> (\<forall>q \<in> set (p # items). timestamp e \<le> timestamp (snd q))"
    proof
      assume "k = key \<and> (\<forall>q \<in> set items. timestamp entry \<le> timestamp (snd q))"
      then show ?thesis using True p by auto
    next
      assume "\<exists>e. (k, e) \<in> set items \<and> timestamp e < timestamp entry
                 \<and> (\<forall>q \<in> set items. timestamp e \<le> timestamp (snd q))"
      then obtain e where "(k, e) \<in> set items" "timestamp e < timestamp entry"
        "\<forall>q \<in> set items. timestamp e \<le> timestamp (snd q)" by blast
      then show ?thesis using True p by (intro exI [of _ e]) auto
    qed
    with run show ?thesis by blast
  next
    case False
    obtain k where k: "find_oldest_loop items (Some k0) (Some t0) = Some k"
      and alt: "(k = k0 \<and> (\<forall>q \<in> set items. t0 \<le> timestamp (snd q)))
          \<or> (\<exists>e. (k, e) \<in> set items \<and> timestamp e < t0
                 \<and> (\<forall>q \<in> set items. timestamp e \<le> timestamp (snd q)))"
      using Cons.IH [of k0 t0] by blast
    have run: "find_oldest_loop (p # items) (Some k0) (Some t0) = Some k"
      using False k by (simp add: p below_def)
    from alt have "(k = k0 \<and> (\<forall>q \<in> set (p # items). t0 \<le> timestamp (snd q)))
          \<or> (\<exists>e. (k, e) \<in> set (p # items) \<and> timestamp e < t0
                 \<and> (\<forall>q \<in> set (p # items). timestamp e \<le> timestamp (snd q)))"
    proof
      assume "k = k0 \<and> (\<forall>q \<in> set items. t0 \<le> timestamp (snd q))"
      then show ?thesis using False p by auto
    next
      assume "\<exists>e. (k, e) \<in> set items \<and> timestamp e < t0
                 \<and> (\<forall>q \<in> set items. timestamp e \<le> timestamp (snd q))"
      then obtain e where "(k, e) \<in> set items" "timestamp e < t0"
        "\<forall>q \<in> set items. timestamp e \<le> timestamp (snd q)" by blast
      then have "(k, e) \<in> set (p # items) \<and> timestamp e < t0
                 \<and> (\<forall>q \<in> set (p # items). timestamp e \<le> timestamp (snd q))"
        using False p by auto
      then show ?thesis by blast
    qed
    with run show ?thesis by blast
  qed
qed

lemma find_oldest_entry_min:
  assumes "cache c \<noteq> []"
  shows "\<exists>k e. find_oldest_entry c = Some k \<and> (k, e) \<in> set (cache c)
            \<and> (\<forall>p \<in> set (cache c). timestamp e \<le> timestamp (snd p))"
proof -
  obtain key entry items where c: "cache c = (key, entry) # items"
    using assms by (cases "cache c") auto
  have start: "find_oldest_entry c = find_oldest_loop items (Some key) (Some (timestamp entry))"
    by (simp add: find_oldest_entry_def c below_def)
  obtain k where k: "find_oldest_loop items (Some key) (Some (timestamp entry)) = Some k"
    and alt: "(k = key \<and> (\<forall>q \<in> set items. timestamp entry \<le> timestamp (snd q)))
          \<or> (\<exists>e. (k, e) \<in> set items \<and> timestamp e < timestamp entry
                 \<and> (\<forall>q \<in> set items. timestamp e \<le> timestamp (snd q)))"
    using find_oldest_loop_acc [of items key "timestamp entry"] by blast
  from alt have "\<exists>e. (k, e) \<in> set (cache c)
            \<and> (\<forall>p \<in> set (cache c). timestamp e \<le> timestamp (snd p))"
  proof
    assume "k = key \<and> (\<forall>q \<in> set items. timestamp entry \<le> timestamp (snd q))"
    then show ?thesis by (intro exI [of _ entry]) (auto simp: c)
  next
    assume "\<exists>e. (k, e) \<in> set items \<and> timestamp e < timestamp entry
                 \<and> (\<forall>q \<in> set items. timestamp e \<le> timestamp (snd q))"
    then obtain e where "(k, e) \<in> set items" "timestamp e < timestamp entry"
      "\<forall>q \<in> set items. timestamp e \<le> timestamp (snd q)" by blast
    then show ?thesis by (intro exI [of _ e]) (auto simp: c)
  qed
  with start k show ?thesis by auto
qed

lemma find_oldest_entry_empty: "cache c = [] \<Longrightarrow> find_oldest_entry c = None"
  by (simp add: find_oldest_entry_def)

text \<open>The eviction step at capacity, on a well-formed cache that is not empty.\<close>

lemma evict_at_capacity:
  assumes wf: "well_formed c" and ne: "cache c \<noteq> []"
    and full: "max_size c \<le> int (length (cache c))"
  shows "\<exists>k e. find_oldest_entry c = Some k \<and> (k, e) \<in> set (cache c)
            \<and> (\<forall>p \<in> set (cache c). timestamp e \<le> timestamp (snd p))
            \<and> evict c = c\<lparr>cache := dict_del (cache c) k\<rparr>
            \<and> Suc (length (cache (evict c))) = length (cache c)
            \<and> set (cache (evict c)) = set (cache c) - {(k, e)}"
proof -
  obtain k e where k: "find_oldest_entry c = Some k" and mem: "(k, e) \<in> set (cache c)"
    and least: "\<forall>p \<in> set (cache c). timestamp e \<le> timestamp (snd p)"
    using find_oldest_entry_min [OF ne] by blast
  have key: "k \<in> set (dict_keys (cache c))"
    using mem by (force simp: dict_keys_def)
  then have "k \<noteq> []"
    using wf by (auto simp: well_formed_def)
  then have ev: "evict c = c\<lparr>cache := dict_del (cache c) k\<rparr>"
    using full k by (simp add: evict_def truthy_def)
  have d: "distinct (dict_keys (cache c))"
    using wf by (simp add: well_formed_def)
  have "Suc (length (cache (evict c))) = length (cache c)"
    using length_dict_del [OF d key] by (simp add: ev)
  moreover have "set (cache (evict c)) = set (cache c) - {(k, e)}"
    using set_dict_del [OF d mem] by (simp add: ev)
  ultimately show ?thesis
    using k mem least ev by blast
qed

lemma evict_below_capacity:
  "int (length (cache c)) < max_size c \<Longrightarrow> evict c = c"
  by (simp add: evict_def)

lemma evict_fields: "ttl_ms (evict c) = ttl_ms c" "max_size (evict c) = max_size c"
  by (simp_all add: evict_def split: option.splits)

lemma evict_cases: "evict c = c \<or> (\<exists>k. evict c = c\<lparr>cache := dict_del (cache c) k\<rparr>)"
  by (auto simp: evict_def split: option.splits)

lemma well_formed_del:
  "well_formed c \<Longrightarrow> well_formed (c\<lparr>cache := dict_del (cache c) k\<rparr>)"
  by (simp add: well_formed_def dict_keys_del)

lemma well_formed_evict: "well_formed c \<Longrightarrow> well_formed (evict c)"
  using evict_cases [of c] well_formed_del by auto

lemma cacheable:
  "completion resp \<noteq> [] \<Longrightarrow> error resp = None \<Longrightarrow>
   cache_set c req resp now_ms =
     (evict c)\<lparr>cache := dict_set (cache (evict c)) (hash_key req)
                          \<lparr>response = resp, timestamp = now_ms\<rparr>\<rparr>"
  by (simp add: cache_set_def truthy_def truthy_opt_def Let_def)

lemma cache_set_cases:
  "cache_set c req resp now_ms = c
   \<or> cache_set c req resp now_ms =
       (evict c)\<lparr>cache := dict_set (cache (evict c)) (hash_key req)
                            \<lparr>response = resp, timestamp = now_ms\<rparr>\<rparr>"
  by (simp add: cache_set_def Let_def)

lemma well_formed_set: "well_formed c \<Longrightarrow> well_formed (cache_set c req resp now_ms)"
proof -
  assume wf: "well_formed c"
  have "well_formed ((evict c)\<lparr>cache := dict_set (cache (evict c)) (hash_key req) v\<rparr>)" for v
    using well_formed_evict [OF wf] hash_key_nonempty [of req]
    by (auto simp: well_formed_def dict_keys_set)
  then show ?thesis
    using cache_set_cases [of c req resp now_ms] wf by auto
qed

lemma well_formed_get: "well_formed c \<Longrightarrow> well_formed (snd (cache_get c req now_ms))"
  by (auto simp: cache_get_def Let_def well_formed_del split: option.splits)

lemma well_formed_step: "well_formed c \<Longrightarrow> well_formed (cache_step c x)"
  by (cases x) (simp_all add: well_formed_set well_formed_get, simp add: cache_clear_def well_formed_def dict_keys_def)

lemma max_size_step: "max_size (cache_step c x) = max_size c"
proof (cases x)
  case (Get req now_ms)
  then show ?thesis by (simp add: cache_get_def Let_def split: option.splits)
next
  case (Set req resp now_ms)
  then show ?thesis
    using cache_set_cases [of c req resp now_ms] by (auto simp: evict_fields)
next
  case Clear
  then show ?thesis by (simp add: cache_clear_def)
qed

lemma size_set:
  assumes wf: "well_formed c" and pos: "1 \<le> max_size c"
    and bound: "int (length (cache c)) \<le> max_size c"
  shows "int (length (cache (cache_set c req resp now_ms))) \<le> max_size c"
proof -
  let ?v = "\<lparr>response = resp, timestamp = now_ms\<rparr>"
  have "int (length (dict_set (cache (evict c)) (hash_key req) ?v)) \<le> max_size c"
  proof (cases "int (length (cache c)) < max_size c")
    case True
    then have "evict c = c" by (rule evict_below_capacity)
    then show ?thesis using True by (simp add: length_dict_set)
  next
    case False
    then have full: "max_size c \<le> int (length (cache c))" by simp
    then have "cache c \<noteq> []" using pos by auto
    then have "Suc (length (cache (evict c))) = length (cache c)"
      using evict_at_capacity [OF wf _ full] by blast
    then show ?thesis using bound by (simp add: length_dict_set)
  qed
  then show ?thesis
    using cache_set_cases [of c req resp now_ms] bound by auto
qed

lemma size_step:
  assumes "well_formed c" and "1 \<le> max_size c" and "int (length (cache c)) \<le> max_size c"
  shows "int (length (cache (cache_step c x))) \<le> max_size c"
proof (cases x)
  case (Get req now_ms)
  have "length (cache (snd (cache_get c req now_ms))) \<le> length (cache c)"
    by (simp add: cache_get_def Let_def length_dict_del_le split: option.splits)
  then show ?thesis using Get assms(3) by simp
next
  case (Set req resp now_ms)
  then show ?thesis using size_set [OF assms] by simp
next
  case Clear
  then show ?thesis using assms(2) by (simp add: cache_clear_def)
qed

lemma cache_run_invariant:
  assumes "1 \<le> cap"
  shows "well_formed (cache_run (new_cache ttl cap) ops)
         \<and> max_size (cache_run (new_cache ttl cap) ops) = cap
         \<and> int (length (cache (cache_run (new_cache ttl cap) ops))) \<le> cap"
proof (induction ops rule: rev_induct)
  case Nil
  then show ?case
    using assms by (simp add: cache_run_def new_cache_def well_formed_def dict_keys_def)
next
  case (snoc x ops)
  let ?c = "cache_run (new_cache ttl cap) ops"
  have run: "cache_run (new_cache ttl cap) (ops @ [x]) = cache_step ?c x"
    by (simp add: cache_run_def)
  have wf: "well_formed ?c" and m: "max_size ?c = cap"
    and b: "int (length (cache ?c)) \<le> max_size ?c"
    using snoc.IH by simp_all
  have "1 \<le> max_size ?c" using assms m by simp
  then have "int (length (cache (cache_step ?c x))) \<le> max_size ?c"
    using size_step [OF wf _ b] by simp
  then show ?case
    using well_formed_step [OF wf, of x] max_size_step [of ?c x] m by (simp add: run)
qed

lemma well_formed_run: "well_formed (cache_run (new_cache ttl cap) ops)"
proof (induction ops rule: rev_induct)
  case Nil
  then show ?case by (simp add: cache_run_def new_cache_def well_formed_def dict_keys_def)
next
  case (snoc x ops)
  then show ?case by (simp add: cache_run_def well_formed_step)
qed

lemma full_cache_eq:
  "full_cache = \<lparr>cache = [(''ts:haiku:1:'', \<lparr>response = response_one, timestamp = 0\<rparr>),
                           (''ts:haiku:2:'', \<lparr>response = response_two, timestamp = 1\<rparr>)],
                  ttl_ms = 10000, max_size = 2\<rparr>"
  by (simp add: full_cache_def cache_run_def new_cache_def cache_set_def evict_def Let_def
      truthy_def truthy_opt_def response_one_def response_two_def hash_key_def or_default_def
      request_1_def request_2_def)

lemma hash_key_request_1: "hash_key request_1 = ''ts:haiku:1:''"
  by (simp add: hash_key_def request_1_def or_default_def truthy_def)

lemma hash_key_request_2: "hash_key request_2 = ''ts:haiku:2:''"
  by (simp add: hash_key_def request_2_def or_default_def truthy_def)

text \<open>
  Claim C1, amended to a capacity of at least 1. In every cache reached from the empty
  one by \<open>get\<close>, \<open>set\<close> and \<open>clear\<close> calls, the number of entries is at most \<open>max_size\<close>; and
  whenever \<open>set\<close> is called there with a non-empty, error-free response while the size is
  at least \<open>max_size\<close>, the eviction step deletes exactly one entry, the one that
  \<open>_find_oldest_entry\<close> returns, whose timestamp is the smallest of all entries, and only
  then is the new entry stored; the size stays within \<open>max_size\<close>.
\<close>

theorem C1_size_bounded_oldest_evicted:
  assumes "1 \<le> cap" and "c = cache_run (new_cache ttl cap) ops"
  shows "cache_size c \<le> cap
         \<and> (\<forall>req resp now_ms.
               completion resp \<noteq> [] \<and> error resp = None \<and> max_size c \<le> cache_size c \<longrightarrow>
               (\<exists>k e. find_oldest_entry c = Some k \<and> (k, e) \<in> set (cache c)
                  \<and> (\<forall>p \<in> set (cache c). timestamp e \<le> timestamp (snd p))
                  \<and> evict c = c\<lparr>cache := dict_del (cache c) k\<rparr>
                  \<and> set (cache (evict c)) = set (cache c) - {(k, e)}
                  \<and> cache_size (evict c) = cache_size c - 1
                  \<and> cache_set c req resp now_ms =
                      (evict c)\<lparr>cache := dict_set (cache (evict c)) (hash_key req)
                                           \<lparr>response = resp, timestamp = now_ms\<rparr>\<rparr>
                  \<and> cache_size (cache_set c req resp now_ms) \<le> cap))"
proof -
  have wf: "well_formed c" and m: "max_size c = cap" and b: "int (length (cache c)) \<le> cap"
    using cache_run_invariant [OF assms(1), of ttl ops] assms(2) by simp_all
  have pos: "1 \<le> max_size c" using assms(1) m by simp
  have after: "cache_size (cache_set c req resp now_ms) \<le> cap" for req resp now_ms
    using size_set [OF wf pos, of req resp now_ms] b m by (simp add: cache_size_def)
  have "\<exists>k e. find_oldest_entry c = Some k \<and> (k, e) \<in> set (cache c)
                  \<and> (\<forall>p \<in> set (cache c). timestamp e \<le> timestamp (snd p))
                  \<and> evict c = c\<lparr>cache := dict_del (cache c) k\<rparr>
                  \<and> set (cache (evict c)) = set (cache c) - {(k, e)}
                  \<and> cache_size (evict c) = cache_size c - 1
                  \<and> cache_set c req resp now_ms =
                      (evict c)\<lparr>cache := dict_set (cache (evict c)) (hash_key req)
                                           \<lparr>response = resp, timestamp = now_ms\<rparr>\<rparr>
                  \<and> cache_size (cache_set c req resp now_ms) \<le> cap"
    if ok: "completion resp \<noteq> []" "error resp = None" and full: "max_size c \<le> cache_size c"
    for req resp now_ms
  proof -
    have full': "max_size c \<le> int (length (cache c))"
      using full by (simp add: cache_size_def)
    then have ne: "cache c \<noteq> []" using pos by auto
    obtain k e where k: "find_oldest_entry c = Some k" "(k, e) \<in> set (cache c)"
        "\<forall>p \<in> set (cache c). timestamp e \<le> timestamp (snd p)"
        "evict c = c\<lparr>cache := dict_del (cache c) k\<rparr>"
        "Suc (length (cache (evict c))) = length (cache c)"
        "set (cache (evict c)) = set (cache c) - {(k, e)}"
      using evict_at_capacity [OF wf ne full'] by blast
    have "cache_size (evict c) = cache_size c - 1"
      using k(5) by (simp add: cache_size_def)
    then show ?thesis
      using k(1,2,3,4,6) cacheable [OF ok, of c req now_ms] after [of req resp now_ms] by blast
  qed
  then show ?thesis
    using b by (simp add: cache_size_def)
qed

theorem C1_size_bounded_oldest_evicted_witness:
  "(1::int) \<le> 2 \<and> cache_size full_cache \<le> 2
   \<and> completion response_two \<noteq> [] \<and> error response_two = None
   \<and> max_size full_cache \<le> cache_size full_cache
   \<and> cache_size (evict full_cache) = 1
   \<and> dict_get (cache (evict full_cache)) (hash_key request_1) = None"
proof -
  have one: "(1::int) \<le> 2" by simp
  note th = C1_size_bounded_oldest_evicted [OF one full_cache_def]
  have pre: "completion response_two \<noteq> [] \<and> error response_two = None
             \<and> max_size full_cache \<le> cache_size full_cache"
    by (simp add: response_two_def full_cache_eq cache_size_def)
  have small: "cache_size full_cache \<le> 2"
    using th by (rule conjunct1)
  have "\<exists>k e. find_oldest_entry full_cache = Some k \<and> (k, e) \<in> set (cache full_cache)
          \<and> (\<forall>p \<in> set (cache full_cache). timestamp e \<le> timestamp (snd p))
          \<and> evict full_cache = full_cache\<lparr>cache := dict_del (cache full_cache) k\<rparr>
          \<and> set (cache (evict full_cache)) = set (cache full_cache) - {(k, e)}
          \<and> cache_size (evict full_cache) = cache_size full_cache - 1
          \<and> cache_set full_cache request_1 response_two 2 =
              (evict full_cache)\<lparr>cache := dict_set (cache (evict full_cache))
                 (hash_key request_1) \<lparr>response = response_two, timestamp = 2\<rparr>\<rparr>
          \<and> cache_size (cache_set full_cache request_1 response_two 2) \<le> 2"
    using th [THEN conjunct2, THEN spec, THEN spec, THEN spec,
              of response_two request_1 2] pre
    by (rule mp)
  then obtain k e where k: "(k, e) \<in> set (cache full_cache)"
      "\<forall>p \<in> set (cache full_cache). timestamp e \<le> timestamp (snd p)"
      "evict full_cache = full_cache\<lparr>cache := dict_del (cache full_cache) k\<rparr>"
      "cache_size (evict full_cache) = cache_size full_cache - 1"
    by blast
  have "k = ''ts:haiku:1:''"
    using k(1,2) by (auto simp: full_cache_eq)
  then have "dict_get (cache (evict full_cache)) (hash_key request_1) = None"
    using k(3) by (simp add: dict_get_del hash_key_request_1)
  moreover have "cache_size (evict full_cache) = 1"
    using k(4) by (simp add: full_cache_eq cache_size_def)
  ultimately show ?thesis
    using pre small by simp
qed

text \<open>
  With \<open>max_size = 0\<close> the claim fails: the empty cache is at capacity, there is nothing
  to evict, and \<open>set\<close> stores the entry all the same, so the cache holds one entry.
\<close>

theorem C1_zero_capacity_counterexample:
  "\<not> cache_size (cache_run (new_cache 30000 0) [Set request_x response_42 0])
       \<le> max_size (cache_run (new_cache 30000 0) [Set request_x response_42 0])
   \<and> cache_size (cache_run (new_cache 30000 0) [Set request_x response_42 0]) = 1
   \<and> completion response_42 \<noteq> [] \<and> error response_42 = None
   \<and> max_size (new_cache 30000 0) \<le> cache_size (new_cache 30000 0)
   \<and> evict (new_cache 30000 0) = new_cache 30000 0"
  by (simp add: cache_run_def new_cache_def cache_set_def evict_def find_oldest_entry_def
      Let_def truthy_def truthy_opt_def response_42_def cache_size_def)

text \<open>
  Claim C10. In a reachable cache at capacity, a \<open>set\<close> with a non-empty, error-free
  response for a fingerprint that is already present still evicts the entry that
  \<open>_find_oldest_entry\<close> returns, chosen without looking at the request, and then overwrites
  the fingerprint. When the evicted key is another one, that entry is gone and the cache
  ends one below its capacity.
\<close>

theorem C10_rewrite_at_capacity:
  assumes "c = cache_run (new_cache ttl cap) ops"
    and "cache_size c = max_size c"
    and "completion resp \<noteq> []" and "error resp = None"
    and "dict_get (cache c) (hash_key req) = Some old"
  shows "\<exists>k e. find_oldest_entry c = Some k \<and> (k, e) \<in> set (cache c)
           \<and> (\<forall>p \<in> set (cache c). timestamp e \<le> timestamp (snd p))
           \<and> cache_set c req resp now_ms =
               c\<lparr>cache := dict_set (dict_del (cache c) k) (hash_key req)
                            \<lparr>response = resp, timestamp = now_ms\<rparr>\<rparr>
           \<and> (if k = hash_key req
               then cache_size (cache_set c req resp now_ms) = max_size c
               else dict_get (cache (cache_set c req resp now_ms)) k = None
                    \<and> cache_size (cache_set c req resp now_ms) = max_size c - 1)"
proof -
  let ?v = "\<lparr>response = resp, timestamp = now_ms\<rparr>"
  have wf: "well_formed c"
    using assms(1) well_formed_run by simp
  have d: "distinct (dict_keys (cache c))"
    using wf by (simp add: well_formed_def)
  have present: "(hash_key req, old) \<in> set (cache c)"
    using assms(5) dict_get_mem [OF d] by simp
  then have ne: "cache c \<noteq> []" by auto
  have full: "max_size c \<le> int (length (cache c))"
    using assms(2) by (simp add: cache_size_def)
  obtain k e where k: "find_oldest_entry c = Some k" "(k, e) \<in> set (cache c)"
      "\<forall>p \<in> set (cache c). timestamp e \<le> timestamp (snd p)"
      "evict c = c\<lparr>cache := dict_del (cache c) k\<rparr>"
      "Suc (length (cache (evict c))) = length (cache c)"
    using evict_at_capacity [OF wf ne full] by blast
  have set_eq: "cache_set c req resp now_ms =
      c\<lparr>cache := dict_set (dict_del (cache c) k) (hash_key req) ?v\<rparr>"
    using cacheable [OF assms(3,4), of c req now_ms] by (simp add: k(4))
  have len: "Suc (length (dict_del (cache c) k)) = length (cache c)"
    using k(4,5) by simp
  have keys: "hash_key req \<in> set (dict_keys (cache c))"
    using present by (force simp: dict_keys_def)
  have "cache_size (cache_set c req resp now_ms) = max_size c" if "k = hash_key req"
  proof -
    have "hash_key req \<notin> set (dict_keys (dict_del (cache c) k))"
      using that by (simp add: dict_keys_del)
    then show ?thesis
      using len assms(2) by (simp add: set_eq cache_size_def length_dict_set)
  qed
  moreover have "dict_get (cache (cache_set c req resp now_ms)) k = None
       \<and> cache_size (cache_set c req resp now_ms) = max_size c - 1" if "k \<noteq> hash_key req"
  proof -
    have "hash_key req \<in> set (dict_keys (dict_del (cache c) k))"
      using that keys by (simp add: dict_keys_del)
    then have "cache_size (cache_set c req resp now_ms) = max_size c - 1"
      using len assms(2) by (simp add: set_eq cache_size_def length_dict_set)
    moreover have "dict_get (cache (cache_set c req resp now_ms)) k = None"
      using that by (simp add: set_eq dict_get_set dict_get_del)
    ultimately show ?thesis by simp
  qed
  ultimately show ?thesis
    using k(1,2,3) set_eq by (intro exI [of _ k] exI [of _ e]) simp
qed

theorem C10_rewrite_at_capacity_witness:
  "cache_size full_cache = max_size full_cache
   \<and> completion response_one \<noteq> [] \<and> error response_one = None
   \<and> dict_get (cache full_cache) (hash_key request_2)
       = Some \<lparr>response = response_two, timestamp = 1\<rparr>
   \<and> dict_get (cache (cache_set full_cache request_2 response_one 2)) (hash_key request_1) = None
   \<and> cache_size (cache_set full_cache request_2 response_one 2) = 1
   \<and> cache_size (cache_set full_cache request_2 response_one 2) < max_size full_cache"
proof -
  have pre: "cache_size full_cache = max_size full_cache"
      "completion response_one \<noteq> []" "error response_one = None"
      "dict_get (cache full_cache) (hash_key request_2)
         = Some \<lparr>response = response_two, timestamp = 1\<rparr>"
    by (simp_all add: full_cache_eq cache_size_def response_one_def hash_key_request_2
        dict_get_def)
  obtain k e where k: "(k, e) \<in> set (cache full_cache)"
      "\<forall>p \<in> set (cache full_cache). timestamp e \<le> timestamp (snd p)"
      "if k = hash_key request_2
       then cache_size (cache_set full_cache request_2 response_one 2) = max_size full_cache
       else dict_get (cache (cache_set full_cache request_2 response_one 2)) k = None
            \<and> cache_size (cache_set full_cache request_2 response_one 2)
                = max_size full_cache - 1"
    using C10_rewrite_at_capacity [OF full_cache_def pre, of 2] by blast
  have "k = ''ts:haiku:1:''"
    using k(1,2) by (auto simp: full_cache_eq)
  then have "dict_get (cache (cache_set full_cache request_2 response_one 2))
                (hash_key request_1) = None
      \<and> cache_size (cache_set full_cache request_2 response_one 2) = max_size full_cache - 1"
    using k(3) by (simp add: hash_key_request_1 hash_key_request_2)
  moreover have "max_size full_cache = 2"
    by (simp add: full_cache_eq)
  ultimately show ?thesis
    using pre by simp
qed

section \<open>The rate limiter\<close>

lemma is_allowed_admits:
  assumes "\<forall>s \<in> set (requests rl). now - s < real_of_int (window_ms rl)"
    and "int (length (requests rl)) < max_requests rl"
  shows "is_allowed rl now = (True, rl\<lparr>requests := requests rl @ [now]\<rparr>)"
proof -
  have "in_window rl now = requests rl"
    using assms(1) by (simp add: in_window_def)
  then show ?thesis
    using assms(2) by (simp add: is_allowed_def)
qed

lemma is_allowed_denies:
  assumes "\<forall>s \<in> set (requests rl). now - s < real_of_int (window_ms rl)"
    and "max_requests rl \<le> int (length (requests rl))"
  shows "is_allowed rl now = (False, rl)"
proof -
  have "in_window rl now = requests rl"
    using assms(1) by (simp add: in_window_def)
  then show ?thesis
    using assms(2) by (simp add: is_allowed_def)
qed

lemma is_allowed_after_window:
  assumes "\<forall>s \<in> set (requests rl). real_of_int (window_ms rl) \<le> now - s"
    and "1 \<le> max_requests rl"
  shows "is_allowed rl now = (True, rl\<lparr>requests := [now]\<rparr>)"
proof -
  have "in_window rl now = []"
    using assms(1) by (auto simp: in_window_def filter_empty_conv)
  then show ?thesis
    using assms(2) by (simp add: is_allowed_def)
qed

lemma acquire_all_admits:
  assumes "\<forall>s \<in> set (requests rl @ ts). \<forall>u \<in> set ts. u - s < real_of_int (window_ms rl)"
    and "int (length (requests rl) + length ts) \<le> max_requests rl"
  shows "acquire_all rl ts = (replicate (length ts) True, rl\<lparr>requests := requests rl @ ts\<rparr>)"
  using assms
proof (induction ts arbitrary: rl)
  case Nil
  then show ?case by simp
next
  case (Cons now ts)
  let ?rl1 = "rl\<lparr>requests := requests rl @ [now]\<rparr>"
  have first: "is_allowed rl now = (True, ?rl1)"
    using Cons.prems by (intro is_allowed_admits) auto
  have "acquire_all ?rl1 ts
          = (replicate (length ts) True, ?rl1\<lparr>requests := requests ?rl1 @ ts\<rparr>)"
    using Cons.prems by (intro Cons.IH) auto
  then show ?case
    by (simp add: first)
qed

lemma sorted_hd_le: "sorted xs \<Longrightarrow> x \<in> set xs \<Longrightarrow> hd xs \<le> (x::real)"
  by (cases xs) auto

lemma retry_after_empty: "requests rl = [] \<Longrightarrow> get_retry_after_seconds rl now = 0"
  by (simp add: get_retry_after_seconds_def)

lemma retry_after_bounds:
  assumes "requests rl = oldest # rest" and "oldest \<le> now"
    and "now - oldest < real_of_int (window_ms rl)"
  shows "0 < get_retry_after_seconds rl now"
    and "get_retry_after_seconds rl now \<le> \<lceil>real_of_int (window_ms rl) / 1000\<rceil>"
proof -
  let ?wait = "real_of_int (window_ms rl) - (now - oldest)"
  have r: "get_retry_after_seconds rl now = max 0 \<lceil>?wait / 1000\<rceil>"
    by (simp add: get_retry_after_seconds_def assms(1) Let_def)
  have "0 < ?wait / 1000" using assms(3) by simp
  then have pos: "0 < \<lceil>?wait / 1000\<rceil>" by (simp only: ceiling_less_iff zero_less_ceiling)
  then show "0 < get_retry_after_seconds rl now" by (simp add: r)
  have "?wait / 1000 \<le> real_of_int (window_ms rl) / 1000" using assms(2) by simp
  then have "\<lceil>?wait / 1000\<rceil> \<le> \<lceil>real_of_int (window_ms rl) / 1000\<rceil>" by (rule ceiling_mono)
  then show "get_retry_after_seconds rl now \<le> \<lceil>real_of_int (window_ms rl) / 1000\<rceil>"
    using pos by (simp add: r)
qed

text \<open>
  Claim C2, amended to \<open>max_requests = N \<ge> 1\<close> and \<open>window_ms = W \<ge> 1\<close>. The clock does not
  run backwards: \<open>ts\<close> are the readings of the first \<open>N\<close> calls on a fresh limiter, \<open>t\<close> is
  the reading of the next call and \<open>tr\<close> the reading of \<open>get_retry_after_seconds\<close> after it,
  all less than \<open>W\<close> after the first call. Then the \<open>N\<close> calls are all allowed and record
  their readings; the next call is denied and leaves the limiter as it was; the retry
  hint lies in \<open>(0, ceil(W / 1000)]\<close>; a call at least \<open>W\<close> after the denied one is allowed
  again; and with no request recorded the retry hint is 0.
\<close>

theorem C2_sliding_window:
  assumes "1 \<le> N" and "1 \<le> W"
    and "int (length ts) = N"
    and "sorted (ts @ [t, tr])"
    and "tr - hd ts < real_of_int W"
    and "t + real_of_int W \<le> later"
  shows "fst (acquire_all (new_limiter W N) ts) = replicate (length ts) True
         \<and> requests (snd (acquire_all (new_limiter W N) ts)) = ts
         \<and> is_allowed (snd (acquire_all (new_limiter W N) ts)) t
             = (False, snd (acquire_all (new_limiter W N) ts))
         \<and> 0 < get_retry_after_seconds (snd (acquire_all (new_limiter W N) ts)) tr
         \<and> get_retry_after_seconds (snd (acquire_all (new_limiter W N) ts)) tr
             \<le> \<lceil>real_of_int W / 1000\<rceil>
         \<and> is_allowed (snd (acquire_all (new_limiter W N) ts)) later
             = (True, (new_limiter W N)\<lparr>requests := [later]\<rparr>)
         \<and> get_retry_after_seconds (new_limiter W N) tr = 0"
proof -
  let ?new = "new_limiter W N"
  let ?rl = "?new\<lparr>requests := ts\<rparr>"
  have ne: "ts \<noteq> []" using assms(1,3) by auto
  have s1: "sorted ts" and s2: "\<forall>s \<in> set ts. s \<le> t" and s3: "t \<le> tr"
    using assms(4) by (auto simp: sorted_append)
  have lo: "hd ts \<le> s" if "s \<in> set ts" for s
    using sorted_hd_le [OF s1 that] .
  have span: "u - s < real_of_int W" if "s \<in> set ts" "u \<le> tr" for s u
    using lo [OF that(1)] that(2) assms(5) by linarith
  have "\<forall>s \<in> set (requests ?new @ ts). \<forall>u \<in> set ts. u - s < real_of_int (window_ms ?new)"
    using span s2 s3 by (fastforce simp: new_limiter_def)
  moreover have "int (length (requests ?new) + length ts) \<le> max_requests ?new"
    using assms(3) by (simp add: new_limiter_def)
  ultimately have run: "acquire_all ?new ts = (replicate (length ts) True, ?rl)"
    using acquire_all_admits [of ?new ts] by (simp add: new_limiter_def)
  have deny: "is_allowed ?rl t = (False, ?rl)"
  proof -
    have "\<forall>s \<in> set (requests ?rl). t - s < real_of_int (window_ms ?rl)"
      using span s3 by (simp add: new_limiter_def)
    moreover have "max_requests ?rl \<le> int (length (requests ?rl))"
      using assms(3) by (simp add: new_limiter_def)
    ultimately show ?thesis by (rule is_allowed_denies)
  qed
  obtain oldest rest where ts: "ts = oldest # rest"
    using ne by (cases ts) auto
  have old: "oldest \<le> tr" "tr - oldest < real_of_int W"
    using lo [of oldest] s2 s3 assms(5) by (auto simp: ts)
  have retry: "0 < get_retry_after_seconds ?rl tr"
      "get_retry_after_seconds ?rl tr \<le> \<lceil>real_of_int W / 1000\<rceil>"
    using retry_after_bounds [of ?rl oldest rest tr] old by (simp_all add: ts new_limiter_def)
  have "\<forall>s \<in> set (requests ?rl). real_of_int (window_ms ?rl) \<le> later - s"
    using s2 assms(6) by (fastforce simp: new_limiter_def)
  then have again: "is_allowed ?rl later = (True, ?new\<lparr>requests := [later]\<rparr>)"
    using is_allowed_after_window [of ?rl later] assms(1) by (simp add: new_limiter_def)
  have "get_retry_after_seconds ?new tr = 0"
    by (simp add: retry_after_empty new_limiter_def)
  then show ?thesis
    using deny retry again by (simp add: run)
qed

theorem C2_sliding_window_witness:
  "(1::int) \<le> 2 \<and> (1::int) \<le> 1000 \<and> int (length [0, 1::real]) = 2
   \<and> sorted ([0, 1] @ [2, 3::real]) \<and> (3::real) - hd [0, 1] < real_of_int 1000
   \<and> (2::real) + real_of_int 1000 \<le> 1002
   \<and> acquire_all (new_limiter 1000 2) [0, 1]
       = ([True, True], \<lparr>requests = [0, 1], window_ms = 1000, max_requests = 2\<rparr>)
   \<and> is_allowed \<lparr>requests = [0, 1], window_ms = 1000, max_requests = 2\<rparr> 2
       = (False, \<lparr>requests = [0, 1], window_ms = 1000, max_requests = 2\<rparr>)
   \<and> get_retry_after_seconds \<lparr>requests = [0, 1], window_ms = 1000, max_requests = 2\<rparr> 3 = 1
   \<and> fst (is_allowed \<lparr>requests = [0, 1], window_ms = 1000, max_requests = 2\<rparr> 1002)"
proof -
  have h: "(1::int) \<le> 2" "(1::int) \<le> 1000" "int (length [0, 1::real]) = 2"
      "sorted ([0, 1] @ [2, 3::real])" "(3::real) - hd [0, 1] < real_of_int 1000"
      "(2::real) + real_of_int 1000 \<le> 1002"
    by simp_all
  note th = C2_sliding_window [OF h]
  have run: "acquire_all (new_limiter 1000 2) [0, 1]
       = ([True, True], \<lparr>requests = [0, 1], window_ms = 1000, max_requests = 2\<rparr>)"
    using th by (auto simp: prod_eq_iff new_limiter_def is_allowed_def in_window_def Let_def
        split: prod.splits)
  have "get_retry_after_seconds \<lparr>requests = [0, 1], window_ms = 1000, max_requests = 2\<rparr> 3 = 1"
    using th unfolding run by (simp add: get_retry_after_seconds_def)
  then show ?thesis
    using th h unfolding run by simp
qed

text \<open>
  With \<open>max_requests = 0\<close> the claim fails: the first call is denied with nothing recorded,
  so the retry hint after the denial is 0, and a call a full window later is denied too.
\<close>

theorem C2_zero_limit_counterexample:
  "is_allowed (new_limiter 1000 0) 0 = (False, new_limiter 1000 0)
   \<and> \<not> 0 < get_retry_after_seconds (new_limiter 1000 0) 0
   \<and> (0::real) + real_of_int 1000 \<le> 1000
   \<and> \<not> fst (is_allowed (new_limiter 1000 0) 1000)"
  by (simp add: is_allowed_def in_window_def new_limiter_def get_retry_after_seconds_def)

section \<open>The metrics\<close>

text \<open>
  The counters and the rolling buffer after any sequence of \<open>record_request\<close> calls on
  fresh metrics: every call is counted, and the buffer holds the response times of the
  most recent \<open>min(n, 1000)\<close> calls in the order they were recorded.
\<close>

lemma record_all_snoc: "record_all (ss @ [s]) = record_sample (record_all ss) s"
  by (simp add: record_all_def)

lemma record_all_Nil: "record_all [] = new_metrics"
  by (simp add: record_all_def)

lemma total_requests_record_all: "total_requests (record_all ss) = int (length ss)"
  by (induction ss rule: rev_induct)
    (simp_all add: record_all_snoc record_all_Nil new_metrics_def record_sample_def
      record_request_def Let_def split: prod.splits)

lemma cache_hits_record_all: "cache_hits (record_all ss) = int (length (filter sample_hit ss))"
  by (induction ss rule: rev_induct)
    (simp_all add: record_all_snoc record_all_Nil new_metrics_def record_sample_def
      record_request_def Let_def sample_hit_def split: prod.splits)

lemma response_times_record_request:
  "response_times (record_request m mdl t hit err) =
     (if length (response_times m) < MAX_RESPONSE_TIMES
      then response_times m @ [t] else tl (response_times m @ [t]))"
  by (auto simp: record_request_def Let_def)

lemma response_times_record_all:
  "response_times (record_all ss) = drop (length ss - MAX_RESPONSE_TIMES) (map sample_time ss)"
proof (induction ss rule: rev_induct)
  case Nil
  then show ?case by (simp add: record_all_Nil new_metrics_def)
next
  case (snoc s ss)
  let ?xs = "map sample_time ss"
  let ?n = "length ss"
  obtain mdl t hit err where s: "s = (mdl, t, hit, err)" by (cases s) auto
  have t: "sample_time s = t" by (simp add: s sample_time_def)
  have step: "response_times (record_all (ss @ [s])) =
      (if length (response_times (record_all ss)) < MAX_RESPONSE_TIMES
       then response_times (record_all ss) @ [t] else tl (response_times (record_all ss) @ [t]))"
    by (simp add: record_all_snoc record_sample_def s response_times_record_request)
  show ?case
  proof (cases "?n < MAX_RESPONSE_TIMES")
    case True
    then show ?thesis
      using snoc.IH by (simp add: step t)
  next
    case False
    then have len: "length (drop (?n - MAX_RESPONSE_TIMES) ?xs) = MAX_RESPONSE_TIMES"
      by simp
    have "tl (drop (?n - MAX_RESPONSE_TIMES) ?xs @ [t])
            = tl (drop (?n - MAX_RESPONSE_TIMES) (?xs @ [t]))"
      by simp
    also have "\<dots> = drop (Suc (?n - MAX_RESPONSE_TIMES)) (?xs @ [t])"
      by (simp only: drop_Suc tl_drop)
    also have "Suc (?n - MAX_RESPONSE_TIMES) = length (ss @ [s]) - MAX_RESPONSE_TIMES"
      using False by simp
    finally show ?thesis
      using snoc.IH len by (simp add: step t)
  qed
qed

section \<open>The output sanitizer\<close>

lemma lower_idem: "lower (lower c) = lower c"
  by (simp add: lower_def code_def)

lemma lower_o_lower: "lower \<circ> lower = lower"
  by (rule ext) (simp add: lower_idem)

lemma rx_match_lower: "rx_match r (map lower s) = map (map lower) (rx_match r s)"
proof (induction r arbitrary: s)
  case (Lit p)
  show ?case by (simp add: lower_o_lower drop_map)
next
  case (Alt rs)
  then show ?case by (simp add: map_concat comp_def cong: map_cong)
next
  case (Seq a b)
  then show ?case by (simp add: map_concat comp_def)
qed

lemma matches_at_start_lower: "matches_at_start r (map lower s) = matches_at_start r s"
  by (simp add: matches_at_start_def rx_match_lower)

lemma matches_somewhere_lower: "matches_somewhere r (map lower s) = matches_somewhere r s"
proof (induction s)
  case Nil
  then show ?case by (simp add: matches_at_start_def)
next
  case (Cons c s)
  have "matches_at_start r (lower c # map lower s) = matches_at_start r (c # s)"
    using matches_at_start_lower [of r "c # s"] by simp
  then show ?case using Cons by simp
qed

lemma search_ignores_case: "search p (map lower s) = search p s"
  by (simp add: search_def matches_at_start_lower matches_somewhere_lower)

lemma strip_fences_fenced: "strip_fences fenced_text = ''print(1)''"
  unfolding fenced_text_def by code_simp

lemma no_pattern_print: "find (\<lambda>p. search p ''print(1)'') CONVERSATIONAL_PATTERNS = None"
  by code_simp

lemma strip_fences_need: "strip_fences ''I need more context'' = ''I need more context''"
  by code_simp

lemma first_pattern_need:
  "find (\<lambda>p. search p ''I need more context'') CONVERSATIONAL_PATTERNS
     = Some (CONVERSATIONAL_PATTERNS ! 0)"
  by code_simp

lemma source_first:
  "source (CONVERSATIONAL_PATTERNS ! 0) = ''^I (need|cannot|can't|don't|would|could)''"
  by (simp add: CONVERSATIONAL_PATTERNS_def)

lemma sources_distinct:
  "length CONVERSATIONAL_PATTERNS = 8 \<and> distinct (map source CONVERSATIONAL_PATTERNS)"
  by (simp add: CONVERSATIONAL_PATTERNS_def)

lemma other_case_let_me:
  "map lower ''LET ME explain'' = ''let me explain''"
  "find (\<lambda>p. search p (strip_fences ''LET ME explain'')) CONVERSATIONAL_PATTERNS
     = Some (CONVERSATIONAL_PATTERNS ! 5)"
  "find (\<lambda>p. search p (strip_fences ''Let me explain'')) CONVERSATIONAL_PATTERNS
     = Some (CONVERSATIONAL_PATTERNS ! 5)"
  by code_simp+

lemma other_case_need:
  "find (\<lambda>p. search p (strip_fences ''i NEED more context'')) CONVERSATIONAL_PATTERNS
     = Some (CONVERSATIONAL_PATTERNS ! 0)"
  by code_simp

lemma other_case_could:
  "find (\<lambda>p. search p (strip_fences ''could YOU rename it'')) CONVERSATIONAL_PATTERNS
     = Some (CONVERSATIONAL_PATTERNS ! 1)"
  by code_simp

lemma not_at_start:
  "strip_fences ''if I need'' = ''if I need''"
  "find (\<lambda>p. search p (strip_fences ''if I need'')) CONVERSATIONAL_PATTERNS = None"
  by code_simp+

lemma source_second:
  "''Filtered conversational response: '' @ source (CONVERSATIONAL_PATTERNS ! 1)
     = ''Filtered conversational response: ^(Could|Would|Can) you''"
  by (simp add: CONVERSATIONAL_PATTERNS_def)

lemma source_let_me:
  "''Filtered conversational response: '' @ source (CONVERSATIONAL_PATTERNS ! 5)
     = ''Filtered conversational response: let me''"
  by (simp add: CONVERSATIONAL_PATTERNS_def)

lemma clean_completion_filtered:
  assumes "find (\<lambda>p. search p (strip_fences text)) CONVERSATIONAL_PATTERNS = Some p"
  shows "clean_completion text max_length
           = ([], Some (''Filtered conversational response: '' @ source p))"
  using assms by (simp add: clean_completion_def)

lemma clean_completion_unfiltered:
  assumes "find (\<lambda>p. search p (strip_fences text)) CONVERSATIONAL_PATTERNS = None"
  shows "clean_completion text max_length =
     (if int (length (strip_fences text)) > max_length
      then ([], Some (''Filtered response (too long): ''
                      @ str_int (int (length (strip_fences text)))
                      @ '' > '' @ str_int max_length))
      else (strip_fences text, None))"
  using assms by (simp add: clean_completion_def)

text \<open>
  Claim C6. \<open>clean_completion\<close> maps the fenced text to \<open>print(1)\<close> with no reason, for every
  \<open>max_length\<close> of at least its 8 characters (the callers pass 200 and 1000); it maps
  \<open>I need more context\<close> to the empty text with the reason that names the first pattern.
  When no pattern matches the cleaned text, a cleaned text of exactly \<open>max_length\<close>
  characters is returned with no reason and one of \<open>max_length + 1\<close> characters gives the
  empty text with the too-long reason. When some pattern matches, the first one in the
  order of the list decides, whatever the length: the result is the empty text and the
  reason ends with its source. There are eight patterns, their sources differ, and
  \<open>search\<close> does not depend on the case of ASCII letters: \<open>LET ME explain\<close> is filtered by
  the pattern \<open>let me\<close>, \<open>i NEED more context\<close> by the first pattern and
  \<open>could YOU rename it\<close> by the second, as their capitalised forms are. The first pattern
  matches at the start of the text only: \<open>if I need\<close> is returned as it is.
\<close>

theorem C6_sanitizer:
  "(8 \<le> max_length \<longrightarrow> clean_completion fenced_text max_length = (''print(1)'', None))
   \<and> clean_completion ''I need more context'' max_length
       = ([], Some (''Filtered conversational response: ''
                    @ ''^I (need|cannot|can't|don't|would|could)''))
   \<and> (find (\<lambda>p. search p (strip_fences text)) CONVERSATIONAL_PATTERNS = None \<longrightarrow>
        (int (length (strip_fences text)) = max_length \<longrightarrow>
           clean_completion text max_length = (strip_fences text, None))
        \<and> (int (length (strip_fences text)) = max_length + 1 \<longrightarrow>
           clean_completion text max_length
             = ([], Some (''Filtered response (too long): '' @ str_int (max_length + 1)
                          @ '' > '' @ str_int max_length))))
   \<and> (\<forall>i < length CONVERSATIONAL_PATTERNS.
         search (CONVERSATIONAL_PATTERNS ! i) (strip_fences text)
         \<and> (\<forall>j < i. \<not> search (CONVERSATIONAL_PATTERNS ! j) (strip_fences text)) \<longrightarrow>
         clean_completion text max_length
           = ([], Some (''Filtered conversational response: ''
                        @ source (CONVERSATIONAL_PATTERNS ! i))))
   \<and> length CONVERSATIONAL_PATTERNS = 8
   \<and> distinct (map source CONVERSATIONAL_PATTERNS)
   \<and> search p (map lower s) = search p s
   \<and> map lower ''LET ME explain'' = ''let me explain''
   \<and> clean_completion ''LET ME explain'' max_length
       = ([], Some ''Filtered conversational response: let me'')
   \<and> clean_completion ''Let me explain'' max_length
       = ([], Some ''Filtered conversational response: let me'')
   \<and> clean_completion ''i NEED more context'' max_length
       = ([], Some (''Filtered conversational response: ''
                    @ ''^I (need|cannot|can't|don't|would|could)''))
   \<and> clean_completion ''could YOU rename it'' max_length
       = ([], Some ''Filtered conversational response: ^(Could|Would|Can) you'')
   \<and> (9 \<le> max_length \<longrightarrow> clean_completion ''if I need'' max_length = (''if I need'', None))"
proof -
  have a: "clean_completion fenced_text max_length = (''print(1)'', None)"
    if "8 \<le> max_length"
    using that clean_completion_unfiltered [of fenced_text max_length] no_pattern_print
    by (simp add: strip_fences_fenced)
  have b: "clean_completion ''I need more context'' max_length
       = ([], Some (''Filtered conversational response: ''
                    @ ''^I (need|cannot|can't|don't|would|could)''))"
    using clean_completion_filtered [of "''I need more context''" "CONVERSATIONAL_PATTERNS ! 0"
        max_length] first_pattern_need
    by (simp only: strip_fences_need source_first)
  have c: "clean_completion text max_length = (strip_fences text, None)"
    if "find (\<lambda>p. search p (strip_fences text)) CONVERSATIONAL_PATTERNS = None"
      and "int (length (strip_fences text)) = max_length"
    using clean_completion_unfiltered [OF that(1), of max_length] that(2) by simp
  have d: "clean_completion text max_length
             = ([], Some (''Filtered response (too long): '' @ str_int (max_length + 1)
                          @ '' > '' @ str_int max_length))"
    if "find (\<lambda>p. search p (strip_fences text)) CONVERSATIONAL_PATTERNS = None"
      and "int (length (strip_fences text)) = max_length + 1"
    using clean_completion_unfiltered [OF that(1), of max_length] that(2) by simp
  have e: "clean_completion text max_length
           = ([], Some (''Filtered conversational response: ''
                        @ source (CONVERSATIONAL_PATTERNS ! i)))"
    if "i < length CONVERSATIONAL_PATTERNS"
      and "search (CONVERSATIONAL_PATTERNS ! i) (strip_fences text)"
      and "\<forall>j < i. \<not> search (CONVERSATIONAL_PATTERNS ! j) (strip_fences text)" for i
  proof -
    have "find (\<lambda>p. search p (strip_fences text)) CONVERSATIONAL_PATTERNS
            = Some (CONVERSATIONAL_PATTERNS ! i)"
      using that by (subst find_Some_iff) blast
    then show ?thesis by (rule clean_completion_filtered)
  qed
  have f: "clean_completion ''LET ME explain'' max_length
       = ([], Some ''Filtered conversational response: let me'')"
    using clean_completion_filtered [OF other_case_let_me(2), of max_length]
    by (simp only: source_let_me)
  have g: "clean_completion ''Let me explain'' max_length
       = ([], Some ''Filtered conversational response: let me'')"
    using clean_completion_filtered [OF other_case_let_me(3), of max_length]
    by (simp only: source_let_me)
  have h: "clean_completion ''i NEED more context'' max_length
       = ([], Some (''Filtered conversational response: ''
                    @ ''^I (need|cannot|can't|don't|would|could)''))"
    using clean_completion_filtered [OF other_case_need, of max_length]
    by (simp only: source_first)
  have i: "clean_completion ''could YOU rename it'' max_length
       = ([], Some ''Filtered conversational response: ^(Could|Would|Can) you'')"
    using clean_completion_filtered [OF other_case_could, of max_length]
    by (simp only: source_second)
  have j: "clean_completion ''if I need'' max_length = (''if I need'', None)"
    if "9 \<le> max_length"
    using that clean_completion_unfiltered [OF not_at_start(2), of max_length]
    by (simp add: not_at_start(1))
  show ?thesis
    using a b c d e sources_distinct search_ignores_case [of p s] other_case_let_me(1) f g h i j
    by blast
qed

theorem C6_sanitizer_witness:
  "(8::int) \<le> 200
   \<and> clean_completion fenced_text 200 = (''print(1)'', None)
   \<and> clean_completion ''I need more context'' 200
       = ([], Some ''Filtered conversational response: ^I (need|cannot|can't|don't|would|could)'')
   \<and> clean_completion ''abc'' 3 = (''abc'', None)
   \<and> clean_completion ''abcd'' 3 = ([], Some ''Filtered response (too long): 4 > 3'')
   \<and> clean_completion ''This requires more context'' 200
       = ([], Some ''Filtered conversational response: more context'')
   \<and> clean_completion ''LET ME explain'' 200
       = ([], Some ''Filtered conversational response: let me'')
   \<and> clean_completion ''i NEED more context'' 200
       = ([], Some ''Filtered conversational response: ^I (need|cannot|can't|don't|would|could)'')
   \<and> clean_completion ''could YOU rename it'' 200
       = ([], Some ''Filtered conversational response: ^(Could|Would|Can) you'')
   \<and> clean_completion ''if I need'' 200 = (''if I need'', None)"
proof -
  have upper: "clean_completion ''LET ME explain'' 200
       = ([], Some ''Filtered conversational response: let me'')"
    and need_upper: "clean_completion ''i NEED more context'' 200
       = ([], Some ''Filtered conversational response: ^I (need|cannot|can't|don't|would|could)'')"
    and could_upper: "clean_completion ''could YOU rename it'' 200
       = ([], Some ''Filtered conversational response: ^(Could|Would|Can) you'')"
    and inner: "clean_completion ''if I need'' 200 = (''if I need'', None)"
    using C6_sanitizer [of 200 "[]"] by simp_all
  have fenced: "clean_completion fenced_text 200 = (''print(1)'', None)"
    and need: "clean_completion ''I need more context'' 200
       = ([], Some ''Filtered conversational response: ^I (need|cannot|can't|don't|would|could)'')"
    using C6_sanitizer [of 200 "[]"] by simp_all
  have abc: "strip_fences ''abc'' = ''abc''"
      "find (\<lambda>p. search p ''abc'') CONVERSATIONAL_PATTERNS = None"
    by code_simp+
  have exact: "clean_completion ''abc'' 3 = (''abc'', None)"
    using C6_sanitizer [of 3 "''abc''"] abc by simp
  have abcd: "strip_fences ''abcd'' = ''abcd''"
      "find (\<lambda>p. search p ''abcd'') CONVERSATIONAL_PATTERNS = None"
    by code_simp+
  have digits: "str_int 4 = ''4''" "str_int 3 = ''3''"
    by code_simp+
  have over: "clean_completion ''abcd'' 3 = ([], Some ''Filtered response (too long): 4 > 3'')"
    using C6_sanitizer [of 3 "''abcd''"] abcd digits by simp
  have ctx: "strip_fences ''This requires more context'' = ''This requires more context''"
      "\<not> search (CONVERSATIONAL_PATTERNS ! 0) ''This requires more context''"
      "\<not> search (CONVERSATIONAL_PATTERNS ! 1) ''This requires more context''"
      "search (CONVERSATIONAL_PATTERNS ! 2) ''This requires more context''"
    by code_simp+
  have earlier: "\<forall>j < 2. \<not> search (CONVERSATIONAL_PATTERNS ! j) ''This requires more context''"
    using ctx(2,3) by (auto simp: less_2_cases_iff)
  have third: "source (CONVERSATIONAL_PATTERNS ! 2) = ''more context''"
    by (simp add: CONVERSATIONAL_PATTERNS_def)
  have "(2::nat) < length CONVERSATIONAL_PATTERNS"
    by (simp add: CONVERSATIONAL_PATTERNS_def)
  then have "clean_completion ''This requires more context'' 200
       = ([], Some (''Filtered conversational response: '' @ source (CONVERSATIONAL_PATTERNS ! 2)))"
    using C6_sanitizer [of 200 "''This requires more context''"] ctx(4) earlier
    unfolding ctx(1) by blast
  then have "clean_completion ''This requires more context'' 200
       = ([], Some ''Filtered conversational response: more context'')"
    by (simp add: third)
  then show ?thesis
    using fenced need exact over upper need_upper could_upper inner by simp
qed

section \<open>The backend client\<close>

lemma model_timeout_cases:
  "model_timeout mdl =
     (if mdl = ''haiku'' then 5 else if mdl = ''sonnet'' then 10
      else if mdl = ''opus'' then 30 else 5)"
  by (simp add: model_timeout_def MODEL_TIMEOUTS_def DEFAULT_TIMEOUT_def dict_get_def)

lemma get_timeout_unset:
  "env = None \<or> env = Some [] \<Longrightarrow> get_timeout int_of env mdl = Inr (model_timeout mdl)"
  by (auto simp: get_timeout_def truthy_def)

lemma get_timeout_set:
  "env = Some v \<Longrightarrow> v \<noteq> [] \<Longrightarrow>
   get_timeout int_of env mdl =
     (case int_of v of Inl msg \<Rightarrow> Inl (OtherException msg)
                     | Inr n \<Rightarrow> Inr (real_of_int n / 1000))"
  by (simp add: get_timeout_def truthy_def)

lemma completion_resolved:
  assumes "(case ov of None \<Rightarrow> get_timeout int_of env mdl
            | Some ms \<Rightarrow> if ms \<noteq> 0 then Inr (real_of_int ms / 1000)
                        else get_timeout int_of env mdl) = Inr timeout"
  shows "get_claude_completion q int_of env prompt sys_prompt mdl ov
     = (map_sum id (\<lambda>messages. concat (map message_text messages))
          (q prompt \<lparr>system_prompt = sys_prompt, options_model = mdl,
                     max_turns = 1, allowed_tools = []\<rparr> timeout),
        [timeout])"
  using assms by (simp add: get_claude_completion_def Let_def split: sum.splits)

lemma completion_unresolved:
  assumes "(case ov of None \<Rightarrow> get_timeout int_of env mdl
            | Some ms \<Rightarrow> if ms \<noteq> 0 then Inr (real_of_int ms / 1000)
                        else get_timeout int_of env mdl) = Inl e"
  shows "get_claude_completion q int_of env prompt sys_prompt mdl ov = (Inl e, [])"
  using assms by (simp add: get_claude_completion_def Let_def)

lemma attempts_at_most_one:
  "length (snd (get_claude_completion q int_of env prompt sys_prompt mdl ov)) \<le> 1"
  by (simp add: get_claude_completion_def Let_def split: sum.splits option.splits)

lemma attempt_result:
  "snd (get_claude_completion q int_of env prompt sys_prompt mdl ov) = [timeout] \<Longrightarrow>
   fst (get_claude_completion q int_of env prompt sys_prompt mdl ov)
     = map_sum id (\<lambda>messages. concat (map message_text messages))
         (q prompt \<lparr>system_prompt = sys_prompt, options_model = mdl,
                    max_turns = 1, allowed_tools = []\<rparr> timeout)"
  by (auto simp: get_claude_completion_def Let_def split: sum.splits option.splits if_splits)

text \<open>
  Claim C8, amended. The list returned beside the result holds the timeouts of the
  backend attempts, here in milliseconds. A per-request override that is present and not
  zero is the timeout. Otherwise (no override, or an override of 0) a
  \<open>COMPLETION_TIMEOUT_MS\<close> that is set, not empty and an integer is the timeout, and one
  that is not an integer makes the call raise before any attempt. Otherwise (variable
  unset or empty) the timeout is 5000 for haiku, 10000 for sonnet, 30000 for opus and
  5000 for any other model. There is never more than one attempt, and when there is one
  its outcome is the outcome of the call, whether it succeeds or raises.
\<close>

theorem C8_timeout_precedence:
  "(ov = Some ms \<and> ms \<noteq> 0 \<longrightarrow>
      map (\<lambda>seconds. seconds * 1000)
        (snd (get_claude_completion q int_of env prompt sys_prompt mdl ov)) = [real_of_int ms])
   \<and> ((ov = None \<or> ov = Some 0) \<and> env = Some v \<and> v \<noteq> [] \<and> int_of v = Inr n \<longrightarrow>
      map (\<lambda>seconds. seconds * 1000)
        (snd (get_claude_completion q int_of env prompt sys_prompt mdl ov)) = [real_of_int n])
   \<and> ((ov = None \<or> ov = Some 0) \<and> env = Some v \<and> v \<noteq> [] \<and> int_of v = Inl msg \<longrightarrow>
      get_claude_completion q int_of env prompt sys_prompt mdl ov
        = (Inl (OtherException msg), []))
   \<and> ((ov = None \<or> ov = Some 0) \<and> (env = None \<or> env = Some []) \<longrightarrow>
      map (\<lambda>seconds. seconds * 1000)
        (snd (get_claude_completion q int_of env prompt sys_prompt mdl ov))
        = [if mdl = ''haiku'' then 5000 else if mdl = ''sonnet'' then 10000
           else if mdl = ''opus'' then 30000 else 5000])
   \<and> length (snd (get_claude_completion q int_of env prompt sys_prompt mdl ov)) \<le> 1
   \<and> (snd (get_claude_completion q int_of env prompt sys_prompt mdl ov) = [timeout] \<longrightarrow>
      fst (get_claude_completion q int_of env prompt sys_prompt mdl ov)
        = map_sum id (\<lambda>messages. concat (map message_text messages))
            (q prompt \<lparr>system_prompt = sys_prompt, options_model = mdl,
                       max_turns = 1, allowed_tools = []\<rparr> timeout))"
proof -
  let ?G = "get_claude_completion q int_of env prompt sys_prompt mdl ov"
  have a: "map (\<lambda>seconds. seconds * 1000) (snd ?G) = [real_of_int ms]"
    if "ov = Some ms" "ms \<noteq> 0"
    using that completion_resolved [where ov = ov and timeout = "real_of_int ms / 1000"] by simp
  have b: "map (\<lambda>seconds. seconds * 1000) (snd ?G) = [real_of_int n]"
    if "ov = None \<or> ov = Some 0" "env = Some v" "v \<noteq> []" "int_of v = Inr n"
    using that(1,4) get_timeout_set [OF that(2,3), of int_of mdl]
      completion_resolved [where ov = ov and timeout = "real_of_int n / 1000"] by auto
  have c: "?G = (Inl (OtherException msg), [])"
    if "ov = None \<or> ov = Some 0" "env = Some v" "v \<noteq> []" "int_of v = Inl msg"
    using that(1,4) get_timeout_set [OF that(2,3), of int_of mdl]
      completion_unresolved [where ov = ov and e = "OtherException msg"] by auto
  have d: "map (\<lambda>seconds. seconds * 1000) (snd ?G)
        = [if mdl = ''haiku'' then 5000 else if mdl = ''sonnet'' then 10000
           else if mdl = ''opus'' then 30000 else 5000]"
    if "ov = None \<or> ov = Some 0" "env = None \<or> env = Some []"
  proof -
    have "snd ?G = [model_timeout mdl]"
      using that(1) get_timeout_unset [OF that(2), of int_of mdl]
        completion_resolved [where ov = ov and timeout = "model_timeout mdl"] by auto
    then show ?thesis by (simp add: model_timeout_cases)
  qed
  show ?thesis
    using a b c d attempts_at_most_one
      attempt_result
    by blast
qed

theorem C8_timeout_precedence_witness:
  "get_claude_completion silent_query decimal_8000 (Some ''8000'') [] [] ''sonnet'' (Some 2500)
     = (Inr ''42'', [5 / 2])
   \<and> get_claude_completion silent_query decimal_8000 (Some ''8000'') [] [] ''sonnet'' None
     = (Inr ''42'', [8])
   \<and> get_claude_completion silent_query decimal_8000 (Some ''fast'') [] [] ''sonnet'' None
     = (Inl (OtherException ''invalid literal for int()''), [])
   \<and> get_claude_completion silent_query decimal_8000 None [] [] ''sonnet'' None
     = (Inr ''42'', [10])
   \<and> get_claude_completion silent_query decimal_8000 None [] [] ''gpt'' None
     = (Inr ''42'', [5])"
proof -
  have result: "G = (Inr ''42'', [timeout])"
    if "map (\<lambda>seconds. seconds * 1000) (snd G) = [ms]" "timeout = ms / 1000"
      and "\<And>t. snd G = [t] \<longrightarrow> fst G = map_sum id (\<lambda>messages. concat (map message_text messages))
            (silent_query p opts t)"
    for G :: "(py_exception + string) \<times> real list" and ms timeout p opts
  proof -
    have "snd G = [timeout]"
      using that(1,2) by (cases "snd G") auto
    then show ?thesis
      using that(3) [of timeout] by (simp add: silent_query_def prod_eq_iff)
  qed
  have "get_claude_completion silent_query decimal_8000 (Some ''8000'') [] [] ''sonnet''
          (Some 2500) = (Inr ''42'', [5 / 2])"
    using C8_timeout_precedence [of "Some 2500" 2500 silent_query decimal_8000 "Some ''8000''"
        "[]" "[]" "''sonnet''"]
    by (intro result [where ms = 2500]) auto
  moreover have "get_claude_completion silent_query decimal_8000 (Some ''8000'') [] [] ''sonnet''
          None = (Inr ''42'', [8])"
    using C8_timeout_precedence [of None _ silent_query decimal_8000 "Some ''8000''"
        "[]" "[]" "''sonnet''" "''8000''" 8000]
    by (intro result [where ms = 8000]) (auto simp: decimal_8000_def)
  moreover have "get_claude_completion silent_query decimal_8000 (Some ''fast'') [] [] ''sonnet''
          None = (Inl (OtherException ''invalid literal for int()''), [])"
    using C8_timeout_precedence [of None _ silent_query decimal_8000 "Some ''fast''"
        "[]" "[]" "''sonnet''" "''fast''" _ "''invalid literal for int()''"]
    by (simp add: decimal_8000_def)
  moreover have "get_claude_completion silent_query decimal_8000 None [] [] ''sonnet'' None
          = (Inr ''42'', [10])"
    using C8_timeout_precedence [of None _ silent_query decimal_8000 None "[]" "[]" "''sonnet''"]
    by (intro result [where ms = 10000]) auto
  moreover have "get_claude_completion silent_query decimal_8000 None [] [] ''gpt'' None
          = (Inr ''42'', [5])"
    using C8_timeout_precedence [of None _ silent_query decimal_8000 None "[]" "[]" "''gpt''"]
    by (intro result [where ms = 5000]) auto
  ultimately show ?thesis by simp
qed

text \<open>
  An override that is present but 0 is not used: the sonnet default of 10 seconds, or the
  environment value, is taken instead.
\<close>

theorem C8_zero_override_counterexample:
  "map (\<lambda>seconds. seconds * 1000)
     (snd (get_claude_completion silent_query decimal_8000 None [] [] ''sonnet'' (Some 0)))
     \<noteq> [real_of_int 0]
   \<and> get_claude_completion silent_query decimal_8000 None [] [] ''sonnet'' (Some 0)
     = (Inr ''42'', [10])
   \<and> get_claude_completion silent_query decimal_8000 (Some ''8000'') [] [] ''sonnet'' (Some 0)
     = (Inr ''42'', [8])"
  by (simp add: get_claude_completion_def get_timeout_def model_timeout_def MODEL_TIMEOUTS_def
      dict_get_def silent_query_def decimal_8000_def truthy_def)

section \<open>The request pipelines: results\<close>

lemma get_completion_miss:
  assumes "cache_get (completion_cache st) req (t_lookup clk) = (None, cache1)"
  shows "get_completion co st clk req request_id =
     (case fst (get_claude_completion (query co) (int_of_str co) (env_timeout co)
                  (get_user_prompt co (language req) (or_default_opt (filename req) ''unknown'')
                     (prefix req) (or_default (suffix req) []))
                  (get_system_prompt co (multiline req))
                  (or_default (model req) ''haiku'') None) of
        Inr completion_text \<Rightarrow>
          (if truthy_opt (snd (clean_completion completion_text
                                 (if multiline req then 1000 else 200)))
           then Inr (\<lparr>completion = [], error = None, requestId = request_id\<rparr>,
                     st\<lparr>completion_cache := cache1,
                        metrics := record_request (metrics st) (or_default (model req) ''haiku'')
                                     (t_elapsed clk - t_start clk) False False\<rparr>)
           else Inr (\<lparr>completion = fst (clean_completion completion_text
                                             (if multiline req then 1000 else 200)),
                      error = None, requestId = request_id\<rparr>,
                     st\<lparr>completion_cache :=
                          cache_set cache1 req
                            \<lparr>completion = fst (clean_completion completion_text
                                                  (if multiline req then 1000 else 200)),
                             error = None, requestId = request_id\<rparr> (t_store clk),
                        metrics := record_request (metrics st) (or_default (model req) ''haiku'')
                                     (t_elapsed clk - t_start clk) False False\<rparr>))
      | Inl e \<Rightarrow>
          (case e of
             BaseExceptionOnly m \<Rightarrow> Inl (BaseExceptionOnly m)
           | _ \<Rightarrow>
             Inr (\<lparr>completion = [],
                   error = Some (case e of
                       TimeoutError \<Rightarrow> ''Request timed out''
                     | CLINotFoundError \<Rightarrow>
                         ''Claude Code CLI not found. Please install it with: ''
                         @ ''npm install -g @anthropic-ai/claude-code''
                     | CLIConnectionError m \<Rightarrow> ''Failed to connect to Claude Code CLI: '' @ m
                     | ProcessError exit_code m \<Rightarrow>
                         ''Claude Code CLI process failed (exit code: ''
                         @ (case exit_code of None \<Rightarrow> ''unknown'' | Some c \<Rightarrow> c) @ '')''
                     | CLIJSONDecodeError m \<Rightarrow> ''Failed to parse Claude Code response: '' @ m
                     | ClaudeSDKError m \<Rightarrow> ''Claude SDK error: '' @ m
                     | OtherException m \<Rightarrow> if truthy m then m else ''Unknown error''
                     | BaseExceptionOnly m \<Rightarrow> []),
                   requestId = request_id\<rparr>,
                  st\<lparr>completion_cache := cache1,
                     metrics := record_request (metrics st) (or_default (model req) ''haiku'')
                                  (t_elapsed clk - t_start clk) False True\<rparr>)))"
proof -
  let ?B = "fst (get_claude_completion (query co) (int_of_str co) (env_timeout co)
                  (get_user_prompt co (language req) (or_default_opt (filename req) ''unknown'')
                     (prefix req) (or_default (suffix req) []))
                  (get_system_prompt co (multiline req))
                  (or_default (model req) ''haiku'') None)"
  show ?thesis
  proof (cases ?B)
    case (Inl e)
    show ?thesis
      by (cases e) (simp_all add: get_completion_def Let_def assms Inl)
  next
    case (Inr completion_text)
    show ?thesis
      by (simp add: get_completion_def Let_def assms Inr split: prod.splits)
  qed
qed

lemma get_modification_eq:
  "get_modification co m clk req request_id =
     (case fst (get_claude_completion (query co) (int_of_str co) (env_timeout co)
                  (get_modify_user_prompt co (mod_language req) (mod_code req)
                     (mod_instruction req) (or_default (mod_prefix req) [])
                     (or_default (mod_suffix req) []))
                  (get_modify_system_prompt co)
                  (or_default (mod_model req) ''opus'') None) of
        Inr modified_text \<Rightarrow>
          Inr (\<lparr>modified_code = clean_modification modified_text, mod_error = None,
                mod_requestId = request_id\<rparr>,
               record_request m (or_default (mod_model req) ''opus'')
                 (t_elapsed clk - t_start clk) False False)
      | Inl e \<Rightarrow>
          (case e of
             BaseExceptionOnly x \<Rightarrow> Inl (BaseExceptionOnly x)
           | _ \<Rightarrow>
             Inr (\<lparr>modified_code = [],
                   mod_error = Some (case e of
                       TimeoutError \<Rightarrow> ''Request timed out''
                     | CLINotFoundError \<Rightarrow>
                         ''Claude Code CLI not found. Please install it with: ''
                         @ ''npm install -g @anthropic-ai/claude-code''
                     | CLIConnectionError x \<Rightarrow> ''Failed to connect to Claude Code CLI: '' @ x
                     | ProcessError exit_code x \<Rightarrow>
                         ''Claude Code CLI process failed (exit code: ''
                         @ (case exit_code of None \<Rightarrow> ''unknown'' | Some c \<Rightarrow> c) @ '')''
                     | CLIJSONDecodeError x \<Rightarrow> ''Failed to parse Claude Code response: '' @ x
                     | ClaudeSDKError x \<Rightarrow> ''Claude SDK error: '' @ x
                     | OtherException x \<Rightarrow> if truthy x then x else ''Unknown error''
                     | BaseExceptionOnly x \<Rightarrow> []),
                   mod_requestId = request_id\<rparr>,
                  record_request m (or_default (mod_model req) ''opus'')
                    (t_elapsed clk - t_start clk) False True)))"
proof -
  let ?B = "fst (get_claude_completion (query co) (int_of_str co) (env_timeout co)
                  (get_modify_user_prompt co (mod_language req) (mod_code req)
                     (mod_instruction req) (or_default (mod_prefix req) [])
                     (or_default (mod_suffix req) []))
                  (get_modify_system_prompt co)
                  (or_default (mod_model req) ''opus'') None)"
  show ?thesis
  proof (cases ?B)
    case (Inl e)
    show ?thesis
      by (cases e) (simp_all add: get_modification_def Let_def Inl)
  next
    case (Inr modified_text)
    show ?thesis
      by (simp add: get_modification_def Let_def Inr)
  qed
qed

lemma record_request_counts:
  "total_requests (record_request m mdl t hit err) = total_requests m + 1"
  "error_count (record_request m mdl t hit err) = (if err then error_count m + 1 else error_count m)"
  "cache_hits (record_request m mdl t hit err) = (if hit then cache_hits m + 1 else cache_hits m)"
  by (simp_all add: record_request_def Let_def)

lemma record_request_newest:
  "last (response_times (record_request m mdl t hit err)) = t"
proof (cases "response_times m")
  case Nil
  then show ?thesis
    by (simp add: record_request_def Let_def MAX_RESPONSE_TIMES_def)
next
  case (Cons x xs)
  then show ?thesis
    by (simp add: record_request_def Let_def)
qed

lemma record_request_by_model:
  "dict_get (requests_by_model (record_request m mdl t hit err)) mdl
     = Some ((case dict_get (requests_by_model m) mdl of None \<Rightarrow> 0 | Some n \<Rightarrow> n) + 1)"
  by (simp add: record_request_def Let_def dict_get_set)

lemma cache_get_miss_subset:
  "cache_get c req now_ms = (None, c') \<Longrightarrow>
   dict_get (cache c') (hash_key req) = None \<and> set (cache c') \<subseteq> set (cache c)
   \<and> ttl_ms c' = ttl_ms c \<and> max_size c' = max_size c"
proof -
  assume g: "cache_get c req now_ms = (None, c')"
  then have "c' = c \<and> dict_get (cache c) (hash_key req) = None
             \<or> c' = c\<lparr>cache := dict_del (cache c) (hash_key req)\<rparr>"
    by (auto simp: cache_get_def Let_def split: option.splits if_splits)
  then show ?thesis
    by (auto simp: dict_get_del) (auto simp: dict_del_def)
qed

lemma rejection_reason_nonempty:
  "snd (clean_completion text max_length) = Some reason \<Longrightarrow> reason \<noteq> []"
  by (auto simp: clean_completion_def Let_def split: option.splits if_splits)

lemma rejection_cases:
  "(snd (clean_completion text max_length) \<noteq> None) =
     (find (\<lambda>p. search p (strip_fences text)) CONVERSATIONAL_PATTERNS \<noteq> None
      \<or> int (length (strip_fences text)) > max_length)"
  by (auto simp: clean_completion_def Let_def split: option.splits if_splits)

lemma rejection_empty:
  "snd (clean_completion text max_length) = Some reason \<Longrightarrow>
   fst (clean_completion text max_length) = []"
  by (auto simp: clean_completion_def Let_def split: option.splits if_splits)

text \<open>
  Claim C5. Let \<open>e\<close> be any exception of class \<open>Exception\<close> raised by the backend call of a
  request: a timeout, a missing CLI, a connection failure, a process failure, a decode
  failure, another SDK failure, or anything else. Then the completion pipeline (after a
  cache miss) and the modification pipeline both return normally, with empty text, with
  the error message of the handler for \<open>e\<close>, which is never empty (the exit code reads
  \<open>unknown\<close> when the exception has none, and an empty message of an unnamed exception
  becomes \<open>Unknown error\<close>), and with the request recorded in the metrics as an error.
\<close>

theorem C5_failures_become_envelopes:
  assumes "\<forall>x. e \<noteq> BaseExceptionOnly x"
  shows "\<exists>msg. msg \<noteq> []
      \<and> msg = (case e of
                 TimeoutError \<Rightarrow> ''Request timed out''
               | CLINotFoundError \<Rightarrow>
                   ''Claude Code CLI not found. Please install it with: ''
                   @ ''npm install -g @anthropic-ai/claude-code''
               | CLIConnectionError x \<Rightarrow> ''Failed to connect to Claude Code CLI: '' @ x
               | ProcessError exit_code x \<Rightarrow>
                   ''Claude Code CLI process failed (exit code: ''
                   @ (case exit_code of None \<Rightarrow> ''unknown'' | Some c \<Rightarrow> c) @ '')''
               | CLIJSONDecodeError x \<Rightarrow> ''Failed to parse Claude Code response: '' @ x
               | ClaudeSDKError x \<Rightarrow> ''Claude SDK error: '' @ x
               | OtherException x \<Rightarrow> if truthy x then x else ''Unknown error''
               | BaseExceptionOnly x \<Rightarrow> [])
      \<and> (cache_get (completion_cache st) req (t_lookup clk) = (None, cache1)
         \<and> fst (get_claude_completion (query co) (int_of_str co) (env_timeout co)
                  (get_user_prompt co (language req) (or_default_opt (filename req) ''unknown'')
                     (prefix req) (or_default (suffix req) []))
                  (get_system_prompt co (multiline req))
                  (or_default (model req) ''haiku'') None) = Inl e
         \<longrightarrow> get_completion co st clk req request_id
               = Inr (\<lparr>completion = [], error = Some msg, requestId = request_id\<rparr>,
                      st\<lparr>completion_cache := cache1,
                         metrics := record_request (metrics st) (or_default (model req) ''haiku'')
                                      (t_elapsed clk - t_start clk) False True\<rparr>))
      \<and> (fst (get_claude_completion (query co) (int_of_str co) (env_timeout co)
                  (get_modify_user_prompt co (mod_language mreq) (mod_code mreq)
                     (mod_instruction mreq) (or_default (mod_prefix mreq) [])
                     (or_default (mod_suffix mreq) []))
                  (get_modify_system_prompt co)
                  (or_default (mod_model mreq) ''opus'') None) = Inl e
         \<longrightarrow> get_modification co m clk mreq request_id
               = Inr (\<lparr>modified_code = [], mod_error = Some msg, mod_requestId = request_id\<rparr>,
                      record_request m (or_default (mod_model mreq) ''opus'')
                        (t_elapsed clk - t_start clk) False True))
      \<and> error_count (record_request m mdl t False True) = error_count m + 1
      \<and> total_requests (record_request m mdl t False True) = total_requests m + 1"
proof -
  let ?msg = "case e of
                 TimeoutError \<Rightarrow> ''Request timed out''
               | CLINotFoundError \<Rightarrow>
                   ''Claude Code CLI not found. Please install it with: ''
                   @ ''npm install -g @anthropic-ai/claude-code''
               | CLIConnectionError x \<Rightarrow> ''Failed to connect to Claude Code CLI: '' @ x
               | ProcessError exit_code x \<Rightarrow>
                   ''Claude Code CLI process failed (exit code: ''
                   @ (case exit_code of None \<Rightarrow> ''unknown'' | Some c \<Rightarrow> c) @ '')''
               | CLIJSONDecodeError x \<Rightarrow> ''Failed to parse Claude Code response: '' @ x
               | ClaudeSDKError x \<Rightarrow> ''Claude SDK error: '' @ x
               | OtherException x \<Rightarrow> if truthy x then x else ''Unknown error''
               | BaseExceptionOnly x \<Rightarrow> []"
  have ne: "?msg \<noteq> []"
    using assms by (cases e) (simp_all add: truthy_def)
  have comp: "get_completion co st clk req request_id
               = Inr (\<lparr>completion = [], error = Some ?msg, requestId = request_id\<rparr>,
                      st\<lparr>completion_cache := cache1,
                         metrics := record_request (metrics st) (or_default (model req) ''haiku'')
                                      (t_elapsed clk - t_start clk) False True\<rparr>)"
    if miss: "cache_get (completion_cache st) req (t_lookup clk) = (None, cache1)"
      and fails: "fst (get_claude_completion (query co) (int_of_str co) (env_timeout co)
                  (get_user_prompt co (language req) (or_default_opt (filename req) ''unknown'')
                     (prefix req) (or_default (suffix req) []))
                  (get_system_prompt co (multiline req))
                  (or_default (model req) ''haiku'') None) = Inl e"
    unfolding get_completion_miss [OF miss] fails
    using assms by (cases e) simp_all
  have modi: "get_modification co m clk mreq request_id
               = Inr (\<lparr>modified_code = [], mod_error = Some ?msg, mod_requestId = request_id\<rparr>,
                      record_request m (or_default (mod_model mreq) ''opus'')
                        (t_elapsed clk - t_start clk) False True)"
    if fails: "fst (get_claude_completion (query co) (int_of_str co) (env_timeout co)
                  (get_modify_user_prompt co (mod_language mreq) (mod_code mreq)
                     (mod_instruction mreq) (or_default (mod_prefix mreq) [])
                     (or_default (mod_suffix mreq) []))
                  (get_modify_system_prompt co)
                  (or_default (mod_model mreq) ''opus'') None) = Inl e"
    unfolding get_modification_eq fails
    using assms by (cases e) simp_all
  show ?thesis
    using ne comp modi by (intro exI [of _ ?msg]) (simp add: record_request_counts)
qed

lemma fresh_lookup: "cache_get (completion_cache fresh_state) request_x 1
    = (None, new_cache 30000 100)"
  by (simp add: cache_get_def fresh_state_def new_cache_def dict_get_def)

lemma raising_backend_fails:
  "fst (get_claude_completion (query (raising_backend e)) (int_of_str (raising_backend e))
          (env_timeout (raising_backend e)) prompt sys_prompt mdl None) = Inl e"
  by (simp add: get_claude_completion_def raising_backend_def get_timeout_def Let_def)

lemma answering_backend_answers:
  "fst (get_claude_completion (query (answering_backend text))
          (int_of_str (answering_backend text)) (env_timeout (answering_backend text))
          prompt sys_prompt mdl None) = Inr text"
  by (simp add: get_claude_completion_def answering_backend_def get_timeout_def Let_def)

theorem C5_failures_become_envelopes_witness:
  "get_completion (raising_backend (ProcessError None ''boom'')) fresh_state clock_0156
       request_x (Some ''r1'')
     = Inr (\<lparr>completion = [],
             error = Some ''Claude Code CLI process failed (exit code: unknown)'',
             requestId = Some ''r1''\<rparr>,
            fresh_state\<lparr>metrics := record_request new_metrics ''haiku'' 5 False True\<rparr>)
   \<and> get_modification (raising_backend (ProcessError None ''boom'')) new_metrics clock_0156
       modify_request (Some ''r2'')
     = Inr (\<lparr>modified_code = [],
             mod_error = Some ''Claude Code CLI process failed (exit code: unknown)'',
             mod_requestId = Some ''r2''\<rparr>,
            record_request new_metrics ''opus'' 5 False True)
   \<and> error_count (record_request new_metrics ''opus'' 5 False True) = 1"
proof -
  have exc: "\<forall>x. ProcessError None ''boom'' \<noteq> BaseExceptionOnly x"
    by simp
  have look: "cache_get (completion_cache fresh_state) request_x (t_lookup clock_0156)
      = (None, completion_cache fresh_state)"
    using fresh_lookup by (simp add: clock_0156_def fresh_state_def)
  have same: "fresh_state\<lparr>completion_cache := completion_cache fresh_state\<rparr> = fresh_state"
    by simp
  note th1 = C5_failures_become_envelopes [OF exc, where st = fresh_state and req = request_x
      and clk = clock_0156 and ?cache1.0 = "completion_cache fresh_state"
      and co = "raising_backend (ProcessError None ''boom'')" and request_id = "Some ''r1''"
      and mreq = modify_request and m = new_metrics and mdl = "''opus''" and t = 5]
  note th2 = C5_failures_become_envelopes [OF exc, where st = fresh_state and req = request_x
      and clk = clock_0156 and ?cache1.0 = "completion_cache fresh_state"
      and co = "raising_backend (ProcessError None ''boom'')" and request_id = "Some ''r2''"
      and mreq = modify_request and m = new_metrics and mdl = "''opus''" and t = 5]
  have "get_completion (raising_backend (ProcessError None ''boom'')) fresh_state clock_0156
       request_x (Some ''r1'')
     = Inr (\<lparr>completion = [],
             error = Some ''Claude Code CLI process failed (exit code: unknown)'',
             requestId = Some ''r1''\<rparr>,
            fresh_state\<lparr>metrics := record_request new_metrics ''haiku'' 5 False True\<rparr>)"
    using th1 look raising_backend_fails
    by (simp add: same) (simp add: fresh_state_def clock_0156_def request_x_def or_default_def
        truthy_def)
  moreover have "get_modification (raising_backend (ProcessError None ''boom'')) new_metrics
       clock_0156 modify_request (Some ''r2'')
     = Inr (\<lparr>modified_code = [],
             mod_error = Some ''Claude Code CLI process failed (exit code: unknown)'',
             mod_requestId = Some ''r2''\<rparr>,
            record_request new_metrics ''opus'' 5 False True)"
    using th2 raising_backend_fails
    by simp (simp add: clock_0156_def modify_request_def or_default_def truthy_def)
  moreover have "error_count (record_request new_metrics ''opus'' 5 False True) = 1"
    using th1 by (simp add: new_metrics_def)
  ultimately show ?thesis by simp
qed

text \<open>
  Claim C7. When, after a cache miss, the backend answers and \<open>clean_completion\<close> rejects
  the answer (a pattern matches or the cleaned text is too long), \<open>get_completion\<close> returns
  an empty completion with no error, records the request with \<open>error = False\<close>, so the error
  count stays, and does not call \<open>completion_cache.set\<close>: the cache is the one the lookup
  left, it has no entry for the request and no entry that was not there before. The
  request is recorded: the total and the count of its model go up by one, its elapsed time
  is the newest entry of the buffer, and the hit count stays.
\<close>

theorem C7_rejections_are_empty_successes:
  assumes "cache_get (completion_cache st) req (t_lookup clk) = (None, cache1)"
    and "fst (get_claude_completion (query co) (int_of_str co) (env_timeout co)
                (get_user_prompt co (language req) (or_default_opt (filename req) ''unknown'')
                   (prefix req) (or_default (suffix req) []))
                (get_system_prompt co (multiline req))
                (or_default (model req) ''haiku'') None) = Inr text"
    and "snd (clean_completion text (if multiline req then 1000 else 200)) = Some reason"
  shows "get_completion co st clk req request_id
           = Inr (\<lparr>completion = [], error = None, requestId = request_id\<rparr>,
                  st\<lparr>completion_cache := cache1,
                     metrics := record_request (metrics st) (or_default (model req) ''haiku'')
                                  (t_elapsed clk - t_start clk) False False\<rparr>)
         \<and> error_count (record_request (metrics st) (or_default (model req) ''haiku'')
                          (t_elapsed clk - t_start clk) False False) = error_count (metrics st)
         \<and> total_requests (record_request (metrics st) (or_default (model req) ''haiku'')
                             (t_elapsed clk - t_start clk) False False)
             = total_requests (metrics st) + 1
         \<and> cache_hits (record_request (metrics st) (or_default (model req) ''haiku'')
                         (t_elapsed clk - t_start clk) False False) = cache_hits (metrics st)
         \<and> last (response_times (record_request (metrics st) (or_default (model req) ''haiku'')
                                     (t_elapsed clk - t_start clk) False False))
             = t_elapsed clk - t_start clk
         \<and> dict_get (requests_by_model
                       (record_request (metrics st) (or_default (model req) ''haiku'')
                          (t_elapsed clk - t_start clk) False False))
               (or_default (model req) ''haiku'')
             = Some ((case dict_get (requests_by_model (metrics st))
                             (or_default (model req) ''haiku'') of
                        None \<Rightarrow> 0 | Some n \<Rightarrow> n) + 1)
         \<and> set (cache cache1) \<subseteq> set (cache (completion_cache st))
         \<and> dict_get (cache cache1) (hash_key req) = None
         \<and> fst (clean_completion text (if multiline req then 1000 else 200)) = []
         \<and> (find (\<lambda>p. search p (strip_fences text)) CONVERSATIONAL_PATTERNS \<noteq> None
            \<or> int (length (strip_fences text)) > (if multiline req then 1000 else 200))"
proof -
  have "reason \<noteq> []"
    using assms(3) by (rule rejection_reason_nonempty)
  then have "truthy_opt (snd (clean_completion text (if multiline req then 1000 else 200)))"
    by (simp add: assms(3) truthy_opt_def truthy_def)
  then have "get_completion co st clk req request_id
           = Inr (\<lparr>completion = [], error = None, requestId = request_id\<rparr>,
                  st\<lparr>completion_cache := cache1,
                     metrics := record_request (metrics st) (or_default (model req) ''haiku'')
                                  (t_elapsed clk - t_start clk) False False\<rparr>)"
    by (simp add: get_completion_miss [OF assms(1)] assms(2))
  moreover have "set (cache cache1) \<subseteq> set (cache (completion_cache st))"
      "dict_get (cache cache1) (hash_key req) = None"
    using cache_get_miss_subset [OF assms(1)] by simp_all
  moreover have "find (\<lambda>p. search p (strip_fences text)) CONVERSATIONAL_PATTERNS \<noteq> None
            \<or> int (length (strip_fences text)) > (if multiline req then 1000 else 200)"
    using rejection_cases [of "text" "if multiline req then 1000 else 200"] assms(3) by simp
  moreover have "fst (clean_completion text (if multiline req then 1000 else 200)) = []"
    using assms(3) by (rule rejection_empty)
  ultimately show ?thesis
    by (simp add: record_request_counts record_request_newest record_request_by_model)
qed

lemma need_rejected:
  "snd (clean_completion ''I need more context'' 200)
     = Some ''Filtered conversational response: ^I (need|cannot|can't|don't|would|could)''"
  by code_simp

theorem C7_rejections_are_empty_successes_witness:
  "cache_get (completion_cache fresh_state) request_x (t_lookup clock_0156)
     = (None, completion_cache fresh_state)
   \<and> snd (clean_completion ''I need more context'' (if multiline request_x then 1000 else 200))
       = Some ''Filtered conversational response: ^I (need|cannot|can't|don't|would|could)''
   \<and> get_completion (answering_backend ''I need more context'') fresh_state clock_0156
         request_x (Some ''r1'')
       = Inr (\<lparr>completion = [], error = None, requestId = Some ''r1''\<rparr>,
              fresh_state\<lparr>metrics := record_request new_metrics ''haiku'' 5 False False\<rparr>)
   \<and> error_count (record_request new_metrics ''haiku'' 5 False False) = 0
   \<and> total_requests (record_request new_metrics ''haiku'' 5 False False) = 1
   \<and> cache_hits (record_request new_metrics ''haiku'' 5 False False) = 0
   \<and> last (response_times (record_request new_metrics ''haiku'' 5 False False)) = 5
   \<and> dict_get (requests_by_model (record_request new_metrics ''haiku'' 5 False False))
         ''haiku'' = Some 1
   \<and> cache (completion_cache fresh_state) = []"
proof -
  have look: "cache_get (completion_cache fresh_state) request_x (t_lookup clock_0156)
      = (None, completion_cache fresh_state)"
    using fresh_lookup by (simp add: clock_0156_def fresh_state_def)
  have rej: "snd (clean_completion ''I need more context''
                    (if multiline request_x then 1000 else 200))
       = Some ''Filtered conversational response: ^I (need|cannot|can't|don't|would|could)''"
    using need_rejected by (simp add: request_x_def)
  have same: "fresh_state\<lparr>completion_cache := completion_cache fresh_state\<rparr> = fresh_state"
    by simp
  note th = C7_rejections_are_empty_successes [OF look answering_backend_answers rej,
      of "Some ''r1''"]
  have arg: "metrics fresh_state = new_metrics" "or_default (model request_x) ''haiku'' = ''haiku''"
      "t_elapsed clock_0156 - t_start clock_0156 = 5"
    by (simp_all add: fresh_state_def clock_0156_def request_x_def or_default_def truthy_def)
  have "get_completion (answering_backend ''I need more context'') fresh_state clock_0156
         request_x (Some ''r1'')
       = Inr (\<lparr>completion = [], error = None, requestId = Some ''r1''\<rparr>,
              fresh_state\<lparr>metrics := record_request new_metrics ''haiku'' 5 False False\<rparr>)"
    using th by (simp add: same)
      (simp add: fresh_state_def clock_0156_def request_x_def or_default_def truthy_def)
  moreover have "error_count (record_request new_metrics ''haiku'' 5 False False) = 0"
      "total_requests (record_request new_metrics ''haiku'' 5 False False) = 1"
      "cache_hits (record_request new_metrics ''haiku'' 5 False False) = 0"
      "last (response_times (record_request new_metrics ''haiku'' 5 False False)) = 5"
      "dict_get (requests_by_model (record_request new_metrics ''haiku'' 5 False False))
         ''haiku'' = Some 1"
    using th [unfolded arg] by (simp_all add: new_metrics_def dict_get_def)
  moreover have "cache (completion_cache fresh_state) = []"
    by (simp add: fresh_state_def new_cache_def)
  ultimately show ?thesis
    using look rej by simp
qed

end
